theory Spec2Isabelle
  imports Complex_Main "HOL-Library.Multiset"
begin

section \<open>Array primitives of the numerics library\<close>

text \<open>
  The Python sources compute on numpy arrays of floats. One-dimensional arrays are
  lists of reals; every operation that numpy refuses (a shape mismatch, an index mask
  of the wrong length, a singular matrix) is a value of the error type. Rounding is
  not modelled: arithmetic is exact.
\<close>

datatype error = ValueError | IndexError | LinAlgError | NameError | KeyError

type_synonym vec = "real list"

definition bindE :: "error + 'a \<Rightarrow> ('a \<Rightarrow> error + 'b) \<Rightarrow> error + 'b" where
  "bindE m f = (case m of Inl e \<Rightarrow> Inl e | Inr v \<Rightarrow> f v)"

text \<open>
  \<open>np.argsort\<close> returns a permutation of the positions that sorts the keys; numpy's
  default sort is not stable, so the order among equal keys is left open. Every function
  that calls it takes the sorting routine as its argument \<open>argsort\<close>, and
  \<open>is_argsort\<close> says what numpy guarantees of its result. \<open>stable_argsort\<close> is one
  such routine.
\<close>

definition is_argsort :: "real list \<Rightarrow> nat list \<Rightarrow> bool" where
  "is_argsort keys idx \<longleftrightarrow>
     mset idx = mset [0..<length keys] \<and> sorted (map (\<lambda>i. keys ! i) idx)"

definition stable_argsort :: "real list \<Rightarrow> nat list" where
  "stable_argsort keys = sort_key (\<lambda>i. keys ! i) [0..<length keys]"

text \<open>\<open>np.max\<close> of a non-empty integer array.\<close>

definition np_max :: "nat list \<Rightarrow> nat" where
  "np_max xs = fold max (tl xs) (hd xs)"

text \<open>\<open>np.min\<close> of a float array; the empty array has no minimum.\<close>

definition np_min :: "real list \<Rightarrow> error + real" where
  "np_min xs = (if xs = [] then Inl ValueError else Inr (fold min (tl xs) (hd xs)))"


subsection \<open>One-dimensional arrays\<close>

text \<open>
  Elementwise arithmetic of two one-dimensional arrays, with numpy's broadcasting of
  an array of length one; any other pair of different lengths is refused.
\<close>

definition np_bin :: "('a \<Rightarrow> 'b \<Rightarrow> 'c) \<Rightarrow> 'a list \<Rightarrow> 'b list \<Rightarrow> error + 'c list" where
  "np_bin f a b =
     (if length a = length b then Inr (map2 f a b)
      else if length a = 1 then Inr (map (f (hd a)) b)
      else if length b = 1 then Inr (map (\<lambda>x. f x (hd b)) a)
      else Inl ValueError)"

definition count_true :: "bool list \<Rightarrow> nat" where
  "count_true m = length (filter (\<lambda>b. b) m)"

text \<open>\<open>a[mask]\<close> for a boolean mask: the mask must be as long as the array.\<close>

definition mask_get :: "'a list \<Rightarrow> bool list \<Rightarrow> error + 'a list" where
  "mask_get a m =
     (if length m = length a then Inr (map fst (filter snd (zip a m))) else Inl IndexError)"

fun scatter :: "'a list \<Rightarrow> bool list \<Rightarrow> 'a list \<Rightarrow> 'a list" where
  "scatter (x # xs) (True # m) (v # vs) = v # scatter xs m vs"
| "scatter (x # xs) (False # m) vs = x # scatter xs m vs"
| "scatter xs m vs = xs"

text \<open>
  \<open>a[mask] = vs\<close>: the values go to the selected positions in order; a single value
  is broadcast.
\<close>

definition mask_set :: "'a list \<Rightarrow> bool list \<Rightarrow> 'a list \<Rightarrow> error + 'a list" where
  "mask_set a m vs =
     (if length m \<noteq> length a then Inl IndexError
      else if length vs = count_true m then Inr (scatter a m vs)
      else if length vs = 1 then Inr (map2 (\<lambda>x b. if b then hd vs else x) a m)
      else Inl ValueError)"

text \<open>\<open>a[mask] = c\<close> for a scalar \<open>c\<close>.\<close>

definition mask_fill :: "'a list \<Rightarrow> bool list \<Rightarrow> 'a \<Rightarrow> error + 'a list" where
  "mask_fill a m c =
     (if length m \<noteq> length a then Inl IndexError
      else Inr (map2 (\<lambda>x b. if b then c else x) a m))"

text \<open>\<open>a[i]\<close> and \<open>a[idx]\<close> for an array \<open>idx\<close> of non-negative positions.\<close>

definition item :: "'a list \<Rightarrow> nat \<Rightarrow> error + 'a" where
  "item a i = (if i < length a then Inr (a ! i) else Inl IndexError)"

definition take_idx :: "'a list \<Rightarrow> nat list \<Rightarrow> error + 'a list" where
  "take_idx a idx =
     (if list_all (\<lambda>i. i < length a) idx then Inr (map (\<lambda>i. a ! i) idx) else Inl IndexError)"

text \<open>\<open>a[idx] = vs\<close>: later assignments to a repeated position win.\<close>

definition put_idx :: "'a list \<Rightarrow> nat list \<Rightarrow> 'a list \<Rightarrow> error + 'a list" where
  "put_idx a idx vs =
     (if \<not> list_all (\<lambda>i. i < length a) idx then Inl IndexError
      else if length vs = length idx then Inr (fold (\<lambda>(i, v) b. b[i := v]) (zip idx vs) a)
      else if length vs = 1 then Inr (fold (\<lambda>i b. b[i := hd vs]) idx a)
      else Inl ValueError)"

text \<open>\<open>np.unique\<close>: the distinct values in ascending order.\<close>

definition np_unique :: "real list \<Rightarrow> real list" where
  "np_unique a = sort (remdups a)"

subsection \<open>Two-dimensional arrays\<close>

text \<open>
  A two-dimensional array carries its shape, so that an array with no rows or no columns
  still has one; \<open>rows\<close> lists the rows.
\<close>

datatype matrix = Mat (nrows: nat) (ncols: nat) (rows: "real list list")

definition mk_mat :: "nat \<Rightarrow> nat \<Rightarrow> (nat \<Rightarrow> nat \<Rightarrow> real) \<Rightarrow> matrix" where
  "mk_mat nr nc f = Mat nr nc (map (\<lambda>i. map (\<lambda>j. f i j) [0..<nc]) [0..<nr])"

definition entry :: "matrix \<Rightarrow> nat \<Rightarrow> nat \<Rightarrow> real" where
  "entry M i j = rows M ! i ! j"

definition np_zeros2 :: "nat \<Rightarrow> nat \<Rightarrow> matrix" where
  "np_zeros2 nr nc = mk_mat nr nc (\<lambda>i j. 0)"

definition np_diag :: "vec \<Rightarrow> matrix" where
  "np_diag v = mk_mat (length v) (length v) (\<lambda>i j. if i = j then v ! i else 0)"

definition np_identity :: "nat \<Rightarrow> matrix" where
  "np_identity k = mk_mat k k (\<lambda>i j. if i = j then 1 else 0)"

definition transpose_m :: "matrix \<Rightarrow> matrix" where
  "transpose_m M = mk_mat (ncols M) (nrows M) (\<lambda>i j. entry M j i)"

definition scale_m :: "matrix \<Rightarrow> real \<Rightarrow> matrix" where
  "scale_m M c = Mat (nrows M) (ncols M) (map (map (\<lambda>x. x * c)) (rows M))"

definition neg_m :: "matrix \<Rightarrow> matrix" where
  "neg_m M = Mat (nrows M) (ncols M) (map (map uminus) (rows M))"

text \<open>\<open>A.dot(B)\<close> and \<open>A.dot(v)\<close>: the inner dimensions must agree.\<close>

definition dot_mm :: "matrix \<Rightarrow> matrix \<Rightarrow> error + matrix" where
  "dot_mm A B =
     (if ncols A = nrows B
      then Inr (mk_mat (nrows A) (ncols B)
                  (\<lambda>i j. sum_list (map (\<lambda>k. entry A i k * entry B k j) [0..<ncols A])))
      else Inl ValueError)"

definition dot_mv :: "matrix \<Rightarrow> vec \<Rightarrow> error + vec" where
  "dot_mv A v =
     (if ncols A = length v
      then Inr (map (\<lambda>i. sum_list (map (\<lambda>k. entry A i k * v ! k) [0..<ncols A])) [0..<nrows A])
      else Inl ValueError)"

text \<open>\<open>M[:, mask]\<close>, \<open>M[:, idx]\<close>, \<open>M[mask]\<close> and \<open>M[mask, :] = D\<close>.\<close>

definition cols_mask :: "matrix \<Rightarrow> bool list \<Rightarrow> error + matrix" where
  "cols_mask M m =
     (if length m = ncols M
      then Inr (Mat (nrows M) (count_true m) (map (\<lambda>r. map fst (filter snd (zip r m))) (rows M)))
      else Inl IndexError)"

definition cols_idx :: "matrix \<Rightarrow> nat list \<Rightarrow> error + matrix" where
  "cols_idx M idx =
     (if list_all (\<lambda>j. j < ncols M) idx
      then Inr (Mat (nrows M) (length idx) (map (\<lambda>r. map (\<lambda>j. r ! j) idx) (rows M)))
      else Inl IndexError)"

definition rows_mask :: "matrix \<Rightarrow> bool list \<Rightarrow> error + matrix" where
  "rows_mask M m =
     (if length m = nrows M
      then Inr (Mat (count_true m) (ncols M) (map fst (filter snd (zip (rows M) m))))
      else Inl IndexError)"

definition rows_mask_set :: "matrix \<Rightarrow> bool list \<Rightarrow> matrix \<Rightarrow> error + matrix" where
  "rows_mask_set M m D =
     (if length m \<noteq> nrows M then Inl IndexError
      else if nrows D = count_true m \<and> ncols D = ncols M
      then Inr (Mat (nrows M) (ncols M) (scatter (rows M) m (rows D)))
      else Inl ValueError)"

text \<open>
  \<open>W[:, None] * M\<close>: row \<open>i\<close> of \<open>M\<close> is multiplied by \<open>W[i]\<close>; the weights are as many as
  the rows.
\<close>

definition scale_rows :: "vec \<Rightarrow> matrix \<Rightarrow> error + matrix" where
  "scale_rows W M =
     (if length W = nrows M
      then Inr (Mat (nrows M) (ncols M) (map2 (\<lambda>w r. map (\<lambda>x. x * w) r) W (rows M)))
      else Inl ValueError)"

text \<open>
  \<open>np.linalg.inv\<close> in exact arithmetic: the adjugate over the determinant, the determinant
  by expansion along the first row. A matrix that is not square or whose determinant is
  zero is refused; the inverse of the 0 by 0 matrix is the 0 by 0 matrix.
\<close>

definition minor :: "real list list \<Rightarrow> nat \<Rightarrow> real list list" where
  "minor rs j = map (\<lambda>r. take j r @ drop (Suc j) r) rs"

function det_rows :: "real list list \<Rightarrow> real" where
  "det_rows [] = 1"
| "det_rows (r # rs) =
     sum_list (map (\<lambda>j. (- 1) ^ j * r ! j * det_rows (minor rs j)) [0..<length r])"
  by pat_completeness auto
termination
  by (relation "measure length") (auto simp: minor_def)

definition np_linalg_inv :: "matrix \<Rightarrow> error + matrix" where
  "np_linalg_inv M =
     (if nrows M \<noteq> ncols M then Inl LinAlgError
      else (let d = det_rows (rows M)
            in if d = 0 then Inl LinAlgError
               else Inr (mk_mat (nrows M) (nrows M)
                      (\<lambda>i j. (- 1) ^ (i + j)
                             * det_rows (minor (take j (rows M) @ drop (Suc j) (rows M)) i) / d))))"

section \<open>The Benjamini-Hochberg sieve (Simes\_selection.py)\<close>

text \<open>
  \<open>BH_q(p_value, level)\<close>: the bound of rank \<open>i\<close> is
  \<open>level * (i + 1) / (2 * m)\<close>. The function returns Python's \<open>None\<close> when no sorted
  p-value is below its bound.
\<close>

definition BH_bound :: "nat \<Rightarrow> real \<Rightarrow> nat \<Rightarrow> real" where
  "BH_bound m level i = level * (real i + 1) / (2 * real m)"

definition BH_q ::
  "(real list \<Rightarrow> nat list) \<Rightarrow> real list \<Rightarrow> real \<Rightarrow> (real list \<times> nat list) option" where
  "BH_q argsort p_value level =
     (let m = length p_value;
          p_sorted = sort p_value;
          indices = [0..<m];
          indices_order = argsort p_value;
          below = filter (\<lambda>i. p_sorted ! i - BH_bound m level i \<le> 0) indices
      in if below \<noteq> [] then
           (let order_sig = np_max below;
                sig_pvalues = take order_sig indices_order
            in Some (take order_sig p_sorted, sig_pvalues))
         else None)"

text \<open>
  \<open>simes_selection(X, y, alpha, randomizer)\<close>. \<open>cdf\<close> is \<open>scipy.stats.norm.cdf\<close> and
  \<open>draw\<close> the vector that \<open>np.random.standard_normal(p)\<close> returns when the randomizer
  is \<open>'gaussian'\<close>; with any other randomizer the name \<open>perturb\<close> is unbound when it is
  first read. The result is \<open>None\<close> or the tuple
  \<open>(i_0, J, t_0[0], np.sign(T_stats_active), T_stats_inf)\<close>, where \<open>J\<close> is a prefix
  of the order indices or the one-element array \<open>[-1]\<close>; in the second case
  \<open>T_stats_inf\<close> is the scalar \<open>T_stats_active\<close>, here the list of that one value.
\<close>

type_synonym simes_result = "nat \<times> int list \<times> nat \<times> real \<times> vec"

definition simes_significant :: "nat list \<Rightarrow> vec \<Rightarrow> real \<Rightarrow> error + nat list" where
  "simes_significant indices_order p_val_randomized alpha =
     mask_get indices_order (map (\<lambda>q. q \<le> alpha / 2) p_val_randomized)"

text \<open>
  Lines 37 to 56: the statistics, which do not depend on \<open>alpha\<close>. The result is
  \<open>(T_stats, p_val_randomized, indices_order, simes_p_randomized)\<close>.
\<close>

definition simes_statistics ::
  "(real list \<Rightarrow> nat list) \<Rightarrow> (real \<Rightarrow> real) \<Rightarrow> matrix \<Rightarrow> vec \<Rightarrow> string \<Rightarrow> vec
     \<Rightarrow> error + vec \<times> vec \<times> nat list \<times> real" where
  "simes_statistics argsort cdf Xm yv randomizer draw =
     (let p = ncols Xm in
      bindE (dot_mv (transpose_m Xm) yv) (\<lambda>XTy.
      (let T_stats = map (\<lambda>t. t / 1) XTy in
       bindE (if randomizer = ''gaussian'' then Inr (map (\<lambda>x. 1 * x) draw) else Inl NameError)
         (\<lambda>perturb.
       bindE (np_bin (+) T_stats perturb) (\<lambda>randomized_T_stats.
       (let pvals = map (\<lambda>t. 2 * (1 - cdf \<bar>t\<bar>)) randomized_T_stats;
            p_val_randomized = sort pvals;
            indices_order = argsort pvals in
        bindE (np_bin (*) (map (\<lambda>i. real p / (real i + 1)) [0..<p]) p_val_randomized) (\<lambda>scaled.
        bindE (np_min scaled) (\<lambda>simes_p_randomized.
        Inr (T_stats, p_val_randomized, indices_order, simes_p_randomized)))))))))"

text \<open>Lines 58 to 81: the decision at level \<open>alpha\<close>.\<close>

definition simes_decide ::
  "nat \<Rightarrow> vec \<Rightarrow> vec \<Rightarrow> nat list \<Rightarrow> real \<Rightarrow> real \<Rightarrow> error + simes_result option" where
  "simes_decide p T_stats p_val_randomized indices_order simes_p_randomized alpha =
     (let indices = [0..<p] in
      if simes_p_randomized \<le> alpha / 2 then
        bindE (simes_significant indices_order p_val_randomized alpha) (\<lambda>significant.
        bindE (item significant 0) (\<lambda>i_0.
        bindE (item T_stats i_0) (\<lambda>T_stats_active.
        bindE (np_bin (\<le>) p_val_randomized
                 (map (\<lambda>i. ((real i + 1) / (2 * real p)) * alpha) [0..<p])) (\<lambda>passes.
        bindE (mask_get indices passes) (\<lambda>t_0.
        bindE (item t_0 0) (\<lambda>t_first.
        if t_first > 0 then
          (let J = take t_first indices_order in
           bindE (take_idx T_stats J) (\<lambda>T_stats_inactive.
           Inr (Some (i_0, map int J, t_first, sgn T_stats_active,
                      T_stats_inactive @ [T_stats_active]))))
        else Inr (Some (i_0, [- 1], t_first, sgn T_stats_active, [T_stats_active]))))))))
      else Inr None)"

definition simes_selection ::
  "(real list \<Rightarrow> nat list) \<Rightarrow> (real \<Rightarrow> real) \<Rightarrow> matrix \<Rightarrow> vec \<Rightarrow> real \<Rightarrow> string \<Rightarrow> vec
     \<Rightarrow> error + simes_result option" where
  "simes_selection argsort cdf Xm yv alpha randomizer draw =
     bindE (simes_statistics argsort cdf Xm yv randomizer draw)
       (\<lambda>(T_stats, p_val_randomized, indices_order, simes_p_randomized).
     simes_decide (ncols Xm) T_stats p_val_randomized indices_order simes_p_randomized alpha)"

text \<open>
  The active index a call reports, as a set: \<open>i_0\<close>, the coordinate whose statistic is
  \<open>T_stats_active\<close>; no index when the call returns \<open>None\<close> or raises.
\<close>

definition simes_active_set :: "error + simes_result option \<Rightarrow> nat set" where
  "simes_active_set r =
     (case r of Inr (Some (i_0, J, t, sg, T_inf)) \<Rightarrow> {i_0} | _ \<Rightarrow> {})"

section \<open>The conditional Gaussian and its collaborators\<close>

text \<open>
  Modelled from the spec: \<open>randomization.isotropic_gaussian\<close>, \<open>constraints\<close> and
  \<open>affine_gaussian_sampler\<close> are classes of this repository outside the sources at hand.
  By the spec the isotropic randomizer's \<open>cov_prec\<close> is a pair of scalars, the covariance
  \<open>scale\<^sup>2\<close> and the precision \<open>1 / scale\<^sup>2\<close>, with a positive scale as its
  precondition; the affine constraint is the region \<open>A u \<le> b\<close> with a Gaussian mean and
  covariance; the sampler keeps what \<open>fit\<close> hands it. Their constructors have no failure
  mode. The log-density closure that \<open>fit\<close> builds with \<open>functools.partial\<close> is kept as
  the triple of values it binds.
\<close>

definition cov_prec :: "real \<Rightarrow> real \<times> real" where
  "cov_prec scale = (scale\<^sup>2, 1 / scale\<^sup>2)"

record constraints =
  linear_part :: matrix
  offset :: vec
  mean :: vec
  covariance :: matrix

record selection_variable =
  sign :: vec
  variables :: "bool list"

record affine_gaussian_sampler =
  affine_con :: constraints
  initial_point :: vec
  observed_score_state :: vec
  log_density :: "matrix \<times> vec \<times> matrix"
  logdens_transform :: "matrix \<times> vec"
  selection_info :: selection_variable

text \<open>
  The two computations of the conditional mean, as each \<open>fit\<close> writes it:
  \<open>-logdens_linear.dot(self.observed_score_state + opt_offset)\<close> in slope.py and
  \<open>logdens_linear.dot(-self.observed_score_state - opt_offset)\<close> in marginal\_screening.py.
\<close>

definition slope_cond_mean :: "matrix \<Rightarrow> vec \<Rightarrow> vec \<Rightarrow> error + vec" where
  "slope_cond_mean logdens_linear score_state opt_offset =
     bindE (np_bin (+) score_state opt_offset) (\<lambda>t.
     bindE (dot_mv logdens_linear t) (\<lambda>m.
     Inr (map uminus m)))"

definition screening_cond_mean :: "matrix \<Rightarrow> vec \<Rightarrow> vec \<Rightarrow> error + vec" where
  "screening_cond_mean logdens_linear score_state opt_offset =
     bindE (np_bin (-) (map uminus score_state) opt_offset) (\<lambda>t.
     dot_mv logdens_linear t)"

text \<open>
  The steps both builders share for a scalar precision:
  \<open>cond_precision = opt_linear.T.dot(opt_linear) * prec\<close>,
  \<open>cond_cov = np.linalg.inv(cond_precision)\<close> and
  \<open>logdens_linear = cond_cov.dot(opt_linear.T) * prec\<close>.
\<close>

definition cond_gaussian :: "matrix \<Rightarrow> real \<Rightarrow> error + matrix \<times> matrix \<times> matrix" where
  "cond_gaussian opt_linear prec =
     bindE (dot_mm (transpose_m opt_linear) opt_linear) (\<lambda>g.
     (let cond_precision = scale_m g prec in
      bindE (np_linalg_inv cond_precision) (\<lambda>cond_cov.
      bindE (dot_mm cond_cov (transpose_m opt_linear)) (\<lambda>h.
      Inr (cond_precision, cond_cov, scale_m h prec)))))"

section \<open>Marginal screening (marginal\_screening.py)\<close>

text \<open>
  The object after \<open>__init__\<close>: \<open>observed_score_state\<close> is the negated data, \<open>threshold\<close>
  the per-coordinate cut-off, \<open>initial_omega\<close> the stored perturbation (\<open>None\<close> until one
  is supplied or drawn). The randomizer is always the isotropic Gaussian of the given
  scale, so its precision is a scalar and \<open>fit\<close> takes the first branch of its test on
  the precision's shape.
\<close>

record marginal_screening =
  observed_score_state :: vec
  nfeature :: nat
  covariance :: matrix
  randomizer_scale :: real
  initial_omega :: "vec option"
  marginal_level :: real
  threshold :: vec

text \<open>What \<open>fit\<close> leaves on the object.\<close>

record screening_fitted =
  initial_soln :: vec
  selected :: "bool list"
  not_selected :: "bool list"
  selection_variable :: selection_variable
  observed_opt_state :: vec
  num_opt_var :: nat
  opt_transform :: "matrix \<times> vec"
  sampler :: affine_gaussian_sampler

text \<open>
  Lines 52 to 67 of \<open>fit\<close>: the soft-thresholded statistic, the active mask, the signs and
  the observed optimization state. The result is
  \<open>(_randomized_score, Z, soft_thresh, active, active_signs, sign, observed_opt_state)\<close>.
\<close>

definition screening_select ::
  "marginal_screening \<Rightarrow> vec \<Rightarrow> error + vec \<times> vec \<times> vec \<times> bool list \<times> vec \<times> vec \<times> vec" where
  "screening_select self omega =
     bindE (np_bin (-) (marginal_screening.observed_score_state self) omega) (\<lambda>randomized_score.
     (let Z = map uminus randomized_score in
      bindE (np_bin (-) (map abs Z) (threshold self)) (\<lambda>excess.
      bindE (np_bin (*) (map sgn Z) excess) (\<lambda>signed_excess.
      bindE (np_bin (\<ge>) (map abs Z) (threshold self)) (\<lambda>passes.
      bindE (np_bin (\<lambda>x b. if b then x else 0) signed_excess passes) (\<lambda>soft_thresh.
      (let active = map (\<lambda>x. x \<noteq> 0) soft_thresh;
           sign0 = map sgn Z in
       bindE (mask_get sign0 active) (\<lambda>active_signs.
       bindE (mask_fill sign0 (map Not active) 0) (\<lambda>sign.
       bindE (mask_get soft_thresh active) (\<lambda>kept.
       Inr (randomized_score, Z, soft_thresh, active, active_signs, sign, map abs kept)))))))))))"

text \<open>Lines 69 to 75: the affine transform \<open>(opt_linear, opt_offset)\<close>.\<close>

definition screening_transform ::
  "marginal_screening \<Rightarrow> vec \<Rightarrow> bool list \<Rightarrow> vec \<Rightarrow> nat \<Rightarrow> error + matrix \<times> vec" where
  "screening_transform self randomized_score active active_signs k =
     (let p = marginal_screening.nfeature self in
      bindE (rows_mask_set (np_zeros2 p k) active (np_diag active_signs)) (\<lambda>opt_linear.
      bindE (mask_get (threshold self) active) (\<lambda>thr.
      bindE (np_bin (*) active_signs thr) (\<lambda>signed_thr.
      bindE (mask_set (replicate p 0) active signed_thr) (\<lambda>offset1.
      bindE (mask_get randomized_score (map Not active)) (\<lambda>raw.
      bindE (mask_set offset1 (map Not active) raw) (\<lambda>opt_offset.
      Inr (opt_linear, opt_offset))))))))"

text \<open>The body of \<open>fit\<close> once the perturbation \<open>omega\<close> is fixed.\<close>

definition screening_build :: "marginal_screening \<Rightarrow> vec \<Rightarrow> error + screening_fitted" where
  "screening_build self omega =
     bindE (screening_select self omega)
       (\<lambda>(randomized_score, Z, soft_thresh, active, active_signs, sign, opt_state).
     (let selection = \<lparr>sign = sign, variables = active\<rparr>;
          k = length opt_state in
      bindE (screening_transform self randomized_score active active_signs k)
        (\<lambda>(opt_linear, opt_offset).
      bindE (cond_gaussian opt_linear (snd (cov_prec (marginal_screening.randomizer_scale self))))
        (\<lambda>(cond_precision, cond_cov, logdens_linear).
      bindE (screening_cond_mean logdens_linear
               (marginal_screening.observed_score_state self) opt_offset) (\<lambda>cond_mean.
      (let A_scaling = neg_m (np_identity (length active_signs));
           b_scaling = replicate k 0;
           con = \<lparr>linear_part = A_scaling, offset = b_scaling,
                  mean = cond_mean, covariance = cond_cov\<rparr>
       in Inr \<lparr>initial_soln = soft_thresh,
                selected = active,
                not_selected = map Not active,
                selection_variable = selection,
                observed_opt_state = opt_state,
                num_opt_var = k,
                opt_transform = (opt_linear, opt_offset),
                sampler = \<lparr>affine_con = con,
                            initial_point = opt_state,
                            observed_score_state = marginal_screening.observed_score_state self,
                            log_density = (logdens_linear, opt_offset, cond_precision),
                            logdens_transform = (logdens_linear, opt_offset),
                            selection_info = selection\<rparr>\<rparr>))))))"

text \<open>
  \<open>fit(perturb)\<close>: a supplied perturbation replaces the stored one; with none stored
  and none supplied the randomizer is sampled, \<open>draw\<close> being the sample it returns. The
  stored perturbation is updated before the rest runs, so the object is returned also
  when the rest fails.
\<close>

definition screening_fit ::
  "marginal_screening \<Rightarrow> vec \<Rightarrow> vec option \<Rightarrow> marginal_screening \<times> (error + screening_fitted)" where
  "screening_fit self draw perturb =
     (let omega = (case perturb of Some w \<Rightarrow> w
                   | None \<Rightarrow> (case marginal_screening.initial_omega self of
                                Some w \<Rightarrow> w | None \<Rightarrow> draw));
          self' = self\<lparr>marginal_screening.initial_omega := Some omega\<rparr>
      in (self', screening_build self' omega))"

section \<open>Randomized SLOPE (slope.py)\<close>

text \<open>
  The convex solver and the loss are outside the repository; \<open>fit\<close> and
  \<open>selected_targets\<close> use them through five calls, which the model takes as the fields
  of \<open>loss_oracle\<close>: \<open>solve ridge linear\<close> is
  \<open>problem.solve(identity_quadratic(ridge, 0, linear, 0))\<close>, \<open>smooth_grad\<close> is
  \<open>loglike.smooth_objective(., 'grad')\<close>, \<open>restricted_estimator\<close> the unpenalized refit on
  a mask, \<open>hessian\<close> and \<open>mean_function\<close> those of the saturated loss. They are
  deterministic functions of their arguments.
\<close>

record loss_oracle =
  solve :: "real \<Rightarrow> vec \<Rightarrow> vec"
  smooth_grad :: "vec \<Rightarrow> vec"
  restricted_estimator :: "bool list \<Rightarrow> vec"
  hessian :: "vec \<Rightarrow> vec"
  mean_function :: "vec \<Rightarrow> vec"

text \<open>
  The object after \<open>__init__\<close>; \<open>data_X\<close> and \<open>data_y\<close> are the \<open>X\<close> and \<open>y\<close> of
  \<open>loglike.data\<close>.
\<close>

record randomized_slope =
  data_X :: matrix
  data_y :: vec
  nfeature :: nat
  feature_weights :: vec
  ridge_term :: real
  randomizer_scale :: real
  initial_omega :: "vec option"

text \<open>
  What \<open>fit\<close> leaves on the object; \<open>active_signs\<close> is also its return value and
  \<open>weights_W\<close> is the attribute \<open>_W\<close>.
\<close>

record slope_fitted =
  initial_soln :: vec
  active_signs :: vec
  active :: "bool list"
  unpenalized :: "bool list"
  overall :: "bool list"
  inactive :: "bool list"
  selection_variable :: selection_variable
  initial_subgrad :: vec
  observed_opt_state :: vec
  beta_full :: vec
  num_opt_var :: nat
  weights_W :: vec
  score_transform :: "matrix \<times> vec"
  observed_score_state :: vec
  opt_transform :: "matrix \<times> vec"
  sampler :: affine_gaussian_sampler

text \<open>
  Lines 79 to 81: the gradient of \<open>identity_quadratic(ridge, 0, -omega, 0)\<close> at \<open>x\<close> is
  \<open>ridge * x - omega\<close>, and the subgradient is minus the sum of the two gradients.
\<close>

definition slope_subgrad :: "loss_oracle \<Rightarrow> real \<Rightarrow> vec \<Rightarrow> vec \<Rightarrow> error + vec" where
  "slope_subgrad oracle ridge omega soln =
     bindE (np_bin (+) (map (\<lambda>x. ridge * x) soln) (map uminus omega)) (\<lambda>quad_grad.
     bindE (np_bin (+) (smooth_grad oracle soln) quad_grad) (\<lambda>g.
     Inr (map uminus g)))"

text \<open>
  Lines 83 to 86: \<open>indices\<close>, \<open>sorted_soln\<close> and the observed optimization state, the
  distinct magnitudes of the active coordinates in descending order.
\<close>

definition slope_scalings :: "vec \<Rightarrow> bool list \<Rightarrow> error + vec" where
  "slope_scalings soln act =
     bindE (mask_get soln act) (\<lambda>kept.
     Inr (rev (sort (np_unique (map abs kept)))))"

text \<open>
  Lines 89 to 107: the unpenalized refit \<open>beta_bar\<close>, the weights \<open>W\<close>, the score's
  linear term and the observed score state. The result is
  \<open>(beta_bar, W, _score_linear_term, observed_score_state)\<close>.
\<close>

definition slope_score ::
  "loss_oracle \<Rightarrow> matrix \<Rightarrow> nat \<Rightarrow> bool list \<Rightarrow> bool list \<Rightarrow> bool list
     \<Rightarrow> error + vec \<times> vec \<times> matrix \<times> vec" where
  "slope_score oracle Xm p act ovr inact =
     (let beta_unpenalized = restricted_estimator oracle ovr in
      bindE (mask_set (replicate p 0) ovr beta_unpenalized) (\<lambda>beta_bar.
      bindE (dot_mv Xm beta_bar) (\<lambda>eta.
      (let weights = hessian oracle eta in
       bindE (cols_mask Xm act) (\<lambda>X_active.
       bindE (scale_rows weights X_active) (\<lambda>weighted.
       bindE (dot_mm (transpose_m Xm) weighted) (\<lambda>score_linear.
       bindE (dot_mv score_linear beta_unpenalized) (\<lambda>score0.
       bindE (mask_get (smooth_grad oracle beta_bar) inact) (\<lambda>grad_inactive.
       bindE (mask_get score0 inact) (\<lambda>score_inactive.
       bindE (np_bin (+) score_inactive grad_inactive) (\<lambda>summed.
       bindE (mask_set score0 inact summed) (\<lambda>score_state.
       Inr (beta_bar, weights, score_linear, score_state)))))))))))))"

text \<open>
  Lines 109 to 124: the clustering loop over \<open>j\<close> in \<open>range(p - 1)\<close>. A cluster is closed
  when the next sorted magnitude differs from that of the cluster's first coordinate; the
  loop stops early once the next sorted coordinate is zero.
\<close>

record loop_state =
  cur_indx_array :: "nat list"
  cur_indx :: nat
  pointer :: nat
  signs_cluster :: "vec list"

text \<open>
  Lines 116 to 122, the body of the test: the new cluster start \<open>j + 1\<close> is recorded and
  the sign vector of the cluster just closed, which occupies the sorted positions from
  \<open>cur_indx_array[pointer]\<close> up to \<open>j\<close>, is appended.
\<close>

definition close_cluster :: "nat \<Rightarrow> vec \<Rightarrow> nat list \<Rightarrow> nat \<Rightarrow> loop_state \<Rightarrow> error + loop_state" where
  "close_cluster p soln indices j s =
     (let arr = cur_indx_array s @ [j + 1] in
      bindE (item arr (pointer s)) (\<lambda>c.
      (let pos = map (\<lambda>t. t + c) [0..<j + 1 - c] in
       bindE (take_idx indices pos) (\<lambda>src.
       bindE (take_idx soln src) (\<lambda>vals.
       bindE (put_idx (replicate p 0) pos (map sgn vals)) (\<lambda>sign_vec.
       Inr \<lparr>cur_indx_array = arr, cur_indx = j + 1, pointer = pointer s + 1,
             signs_cluster = signs_cluster s @ [sign_vec]\<rparr>))))))"

fun cluster_loop ::
  "nat \<Rightarrow> vec \<Rightarrow> vec \<Rightarrow> nat list \<Rightarrow> nat list \<Rightarrow> loop_state \<Rightarrow> error + loop_state" where
  "cluster_loop p sorted_soln soln indices [] s = Inr s"
| "cluster_loop p sorted_soln soln indices (j # js) s =
     bindE (item sorted_soln (j + 1)) (\<lambda>nxt.
     bindE (item sorted_soln (cur_indx s)) (\<lambda>cur.
     if \<bar>nxt\<bar> \<noteq> \<bar>cur\<bar> then
       bindE (close_cluster p soln indices j s) (\<lambda>s'.
       if nxt = 0 then Inr s'
       else cluster_loop p sorted_soln soln indices js s')
     else cluster_loop p sorted_soln soln indices js s))"

definition slope_clusters :: "nat \<Rightarrow> vec \<Rightarrow> vec \<Rightarrow> nat list \<Rightarrow> error + loop_state" where
  "slope_clusters p sorted_soln soln indices =
     cluster_loop p sorted_soln soln indices [0..<p - 1]
       \<lparr>cur_indx_array = [0], cur_indx = 0, pointer = 0, signs_cluster = []\<rparr>"

text \<open>
  Lines 126 to 128: \<open>np.asarray(signs_cluster).T\<close> is the \<open>p\<close> by \<open>k\<close> matrix of the \<open>k\<close>
  sign vectors as columns. With no sign vector it is the one-dimensional array of length
  zero: the product with \<open>X[:, indices]\<close> is then refused unless there is no column at all,
  in which case \<open>opt_linear\<close> is one-dimensional and \<open>np.linalg.inv\<close> refuses the scalar
  \<open>opt_linear.T.dot(opt_linear) * prec\<close>.
\<close>

definition slope_opt_linear :: "matrix \<Rightarrow> nat list \<Rightarrow> vec list \<Rightarrow> error + matrix" where
  "slope_opt_linear Xm indices clusters =
     bindE (cols_idx Xm indices) (\<lambda>X_sorted.
     if clusters = [] then
       (if ncols X_sorted \<noteq> 0 then Inl ValueError else Inl LinAlgError)
     else
       (let S = transpose_m (Mat (length clusters) (length (hd clusters)) clusters) in
        bindE (dot_mm X_sorted S) (\<lambda>X_clustered.
        bindE (dot_mm (transpose_m Xm) X_clustered) (\<lambda>m.
        Inr (neg_m m)))))"

text \<open>The body of \<open>fit\<close> once the perturbation \<open>omega\<close> is fixed.\<close>

definition slope_build ::
  "(real list \<Rightarrow> nat list) \<Rightarrow> loss_oracle \<Rightarrow> randomized_slope \<Rightarrow> vec \<Rightarrow> error + slope_fitted" where
  "slope_build argsort oracle self omega =
     (let p = randomized_slope.nfeature self;
          soln = solve oracle (ridge_term self) (map uminus omega);
          signs = map sgn soln;
          act = map (\<lambda>s. s \<noteq> 0) signs;
          unpen = replicate p False;
          ovr = map (\<lambda>b. (if b then 1 else 0) > (0::nat)) act;
          inact = map Not ovr;
          selection = \<lparr>sign = signs, variables = ovr\<rparr> in
      bindE (slope_subgrad oracle (ridge_term self) omega soln) (\<lambda>subgrad.
      (let indices = argsort (map (\<lambda>x. - \<bar>x\<bar>) soln) in
       bindE (take_idx soln indices) (\<lambda>sorted_soln.
       bindE (slope_scalings soln act) (\<lambda>opt_state.
       bindE (slope_score oracle (data_X self) p act ovr inact)
         (\<lambda>(beta_bar, weights, score_linear, score_state).
       (let k = length opt_state in
        bindE (slope_clusters p sorted_soln soln indices) (\<lambda>loop.
        bindE (slope_opt_linear (data_X self) indices (signs_cluster loop)) (\<lambda>opt_linear.
        bindE (cond_gaussian opt_linear (snd (cov_prec (randomized_slope.randomizer_scale self))))
          (\<lambda>(cond_precision, cond_cov, logdens_linear).
        bindE (slope_cond_mean logdens_linear score_state subgrad) (\<lambda>cond_mean.
        (let A_scaling = neg_m (np_identity k);
             b_scaling = replicate k 0;
             con = \<lparr>linear_part = A_scaling, offset = b_scaling,
                    mean = cond_mean, covariance = cond_cov\<rparr>
         in Inr \<lparr>initial_soln = soln,
                  active_signs = signs,
                  active = act,
                  unpenalized = unpen,
                  overall = ovr,
                  inactive = inact,
                  selection_variable = selection,
                  initial_subgrad = subgrad,
                  observed_opt_state = opt_state,
                  beta_full = beta_bar,
                  num_opt_var = k,
                  weights_W = weights,
                  score_transform = (score_linear, replicate (nrows score_linear) 0),
                  observed_score_state = score_state,
                  opt_transform = (opt_linear, subgrad),
                  sampler = \<lparr>affine_con = con,
                              initial_point = opt_state,
                              observed_score_state = score_state,
                              log_density = (logdens_linear, subgrad, cond_precision),
                              logdens_transform = (logdens_linear, subgrad),
                              selection_info = selection\<rparr>\<rparr>))))))))))))"

text \<open>
  \<open>fit(perturb)\<close>, with the same handling of the perturbation as in marginal screening.
\<close>

definition slope_fit ::
  "(real list \<Rightarrow> nat list) \<Rightarrow> loss_oracle \<Rightarrow> randomized_slope \<Rightarrow> vec \<Rightarrow> vec option
     \<Rightarrow> randomized_slope \<times> (error + slope_fitted)" where
  "slope_fit argsort oracle self draw perturb =
     (let omega = (case perturb of Some w \<Rightarrow> w
                   | None \<Rightarrow> (case randomized_slope.initial_omega self of
                                Some w \<Rightarrow> w | None \<Rightarrow> draw));
          self' = self\<lparr>randomized_slope.initial_omega := Some omega\<rparr>
      in (self', slope_build argsort oracle self' omega))"
















section \<open>Counting the clusters of a sorted magnitude list\<close>

text \<open>
  A specification of the clustering loop on the list of sorted magnitudes alone:
  starting from the magnitude \<open>c\<close> of the open cluster, every change of magnitude closes a
  cluster, and the first zero ends the count.
\<close>

fun closed_clusters :: "real \<Rightarrow> real list \<Rightarrow> nat" where
  "closed_clusters c [] = 0"
| "closed_clusters c (x # xs) =
     (if x \<noteq> c then (if x = 0 then 1 else 1 + closed_clusters x xs)
      else closed_clusters c xs)"

section \<open>Example inputs\<close>

text \<open>
  Concrete objects on which the theorems below are instantiated. The fitted records are
  what \<open>fit\<close> returns on them, as the lemmas named \<open>\<dots>_fit\<close> show.
\<close>

definition example_screening :: marginal_screening where
  "example_screening =
     \<lparr>marginal_screening.observed_score_state = [- 2, - 1 / 2],
      marginal_screening.nfeature = 2,
      marginal_screening.covariance = Mat 2 2 [[1, 0], [0, 1]],
      marginal_screening.randomizer_scale = 1,
      marginal_screening.initial_omega = None,
      marginal_level = 1 / 10,
      threshold = [1, 1]\<rparr>"

definition example_screening_fitted :: screening_fitted where
  "example_screening_fitted =
     \<lparr>screening_fitted.initial_soln = [1, 0],
      selected = [True, False],
      not_selected = [False, True],
      screening_fitted.selection_variable = \<lparr>sign = [1, 0], variables = [True, False]\<rparr>,
      screening_fitted.observed_opt_state = [1],
      screening_fitted.num_opt_var = 1,
      screening_fitted.opt_transform = (Mat 2 1 [[1], [0]], [1, - 1 / 2]),
      screening_fitted.sampler =
        \<lparr>affine_con = \<lparr>linear_part = Mat 1 1 [[- 1]], offset = [0], mean = [1],
                         covariance = Mat 1 1 [[1]]\<rparr>,
         initial_point = [1],
         affine_gaussian_sampler.observed_score_state = [- 2, - 1 / 2],
         log_density = (Mat 1 2 [[1, 0]], [1, - 1 / 2], Mat 1 1 [[1]]),
         logdens_transform = (Mat 1 2 [[1, 0]], [1, - 1 / 2]),
         selection_info = \<lparr>sign = [1, 0], variables = [True, False]\<rparr>\<rparr>\<rparr>"

definition example_screening_negative :: marginal_screening where
  "example_screening_negative =
     \<lparr>marginal_screening.observed_score_state = [2],
      marginal_screening.nfeature = 1,
      marginal_screening.covariance = Mat 1 1 [[1]],
      marginal_screening.randomizer_scale = 1,
      marginal_screening.initial_omega = None,
      marginal_level = 1 / 10,
      threshold = [1]\<rparr>"

definition example_screening_negative_fitted :: screening_fitted where
  "example_screening_negative_fitted =
     \<lparr>screening_fitted.initial_soln = [- 1],
      selected = [True],
      not_selected = [False],
      screening_fitted.selection_variable = \<lparr>sign = [- 1], variables = [True]\<rparr>,
      screening_fitted.observed_opt_state = [1],
      screening_fitted.num_opt_var = 1,
      screening_fitted.opt_transform = (Mat 1 1 [[- 1]], [- 1]),
      screening_fitted.sampler =
        \<lparr>affine_con = \<lparr>linear_part = Mat 1 1 [[- 1]], offset = [0], mean = [1],
                         covariance = Mat 1 1 [[1]]\<rparr>,
         initial_point = [1],
         affine_gaussian_sampler.observed_score_state = [2],
         log_density = (Mat 1 1 [[- 1]], [- 1], Mat 1 1 [[1]]),
         logdens_transform = (Mat 1 1 [[- 1]], [- 1]),
         selection_info = \<lparr>sign = [- 1], variables = [True]\<rparr>\<rparr>\<rparr>"

definition example_screening_empty :: marginal_screening where
  "example_screening_empty =
     \<lparr>marginal_screening.observed_score_state = [- 1 / 2],
      marginal_screening.nfeature = 1,
      marginal_screening.covariance = Mat 1 1 [[1]],
      marginal_screening.randomizer_scale = 1,
      marginal_screening.initial_omega = None,
      marginal_level = 1 / 10,
      threshold = [1]\<rparr>"

definition example_screening_empty_fitted :: screening_fitted where
  "example_screening_empty_fitted =
     \<lparr>screening_fitted.initial_soln = [0],
      selected = [False],
      not_selected = [True],
      screening_fitted.selection_variable = \<lparr>sign = [0], variables = [False]\<rparr>,
      screening_fitted.observed_opt_state = [],
      screening_fitted.num_opt_var = 0,
      screening_fitted.opt_transform = (Mat 1 0 [[]], [- 1 / 2]),
      screening_fitted.sampler =
        \<lparr>affine_con = \<lparr>linear_part = Mat 0 0 [], offset = [], mean = [],
                         covariance = Mat 0 0 []\<rparr>,
         initial_point = [],
         affine_gaussian_sampler.observed_score_state = [- 1 / 2],
         log_density = (Mat 0 1 [], [- 1 / 2], Mat 0 0 []),
         logdens_transform = (Mat 0 1 [], [- 1 / 2]),
         selection_info = \<lparr>sign = [0], variables = [False]\<rparr>\<rparr>\<rparr>"

definition example_oracle :: loss_oracle where
  "example_oracle =
     \<lparr>solve = (\<lambda>ridge linear. [2, 3, 0, 3]),
      smooth_grad = (\<lambda>b. [0, 0, 0, 0]),
      restricted_estimator = (\<lambda>m. [2, 3, 3]),
      hessian = (\<lambda>eta. [1, 1, 1]),
      mean_function = (\<lambda>eta. eta)\<rparr>"

definition example_slope :: randomized_slope where
  "example_slope =
     \<lparr>data_X = Mat 3 4 [[1, 0, 0, 0], [0, 1, 0, 0], [0, 0, 0, 1]],
      data_y = [1, 1, 1],
      randomized_slope.nfeature = 4,
      feature_weights = [4, 3, 2, 1],
      ridge_term = 0,
      randomized_slope.randomizer_scale = 1,
      randomized_slope.initial_omega = None\<rparr>"

definition example_slope_fitted :: slope_fitted where
  "example_slope_fitted =
     \<lparr>slope_fitted.initial_soln = [2, 3, 0, 3],
      active_signs = [1, 1, 0, 1],
      active = [True, True, False, True],
      unpenalized = [False, False, False, False],
      overall = [True, True, False, True],
      inactive = [False, False, True, False],
      slope_fitted.selection_variable =
        \<lparr>sign = [1, 1, 0, 1], variables = [True, True, False, True]\<rparr>,
      initial_subgrad = [0, 0, 0, 0],
      slope_fitted.observed_opt_state = [3, 2],
      beta_full = [2, 3, 0, 3],
      slope_fitted.num_opt_var = 2,
      weights_W = [1, 1, 1],
      score_transform = (Mat 4 3 [[1, 0, 0], [0, 1, 0], [0, 0, 0], [0, 0, 1]], [0, 0, 0, 0]),
      slope_fitted.observed_score_state = [2, 3, 0, 3],
      slope_fitted.opt_transform = (Mat 4 2 [[0, - 1], [- 1, 0], [0, 0], [- 1, 0]], [0, 0, 0, 0]),
      slope_fitted.sampler =
        \<lparr>affine_con = \<lparr>linear_part = Mat 2 2 [[- 1, 0], [0, - 1]], offset = [0, 0],
                         mean = [3, 2], covariance = Mat 2 2 [[1 / 2, 0], [0, 1]]\<rparr>,
         initial_point = [3, 2],
         affine_gaussian_sampler.observed_score_state = [2, 3, 0, 3],
         log_density = (Mat 2 4 [[0, - (1 / 2), 0, - (1 / 2)], [- 1, 0, 0, 0]],
                        [0, 0, 0, 0], Mat 2 2 [[2, 0], [0, 1]]),
         logdens_transform = (Mat 2 4 [[0, - (1 / 2), 0, - (1 / 2)], [- 1, 0, 0, 0]],
                              [0, 0, 0, 0]),
         selection_info = \<lparr>sign = [1, 1, 0, 1], variables = [True, True, False, True]\<rparr>\<rparr>\<rparr>"

definition example_oracle_zero :: loss_oracle where
  "example_oracle_zero =
     \<lparr>solve = (\<lambda>ridge linear. [0, 0, 0, 0]),
      smooth_grad = (\<lambda>b. [0, 0, 0, 0]),
      restricted_estimator = (\<lambda>m. []),
      hessian = (\<lambda>eta. [1, 1, 1]),
      mean_function = (\<lambda>eta. eta)\<rparr>"


text \<open>A step function in the place of the normal distribution function.\<close>

definition example_cdf :: "real \<Rightarrow> real" where
  "example_cdf t = (if t < 1 then 1 / 2 else 99 / 100)"

section \<open>Properties\<close>

lemma bindE_simps:
  "bindE (Inl e) f = Inl e"
  "bindE (Inr v) f = f v"
  by (simp_all add: bindE_def)

lemma bindE_eq_Inr:
  "bindE m f = Inr r \<longleftrightarrow> (\<exists>v. m = Inr v \<and> f v = Inr r)"
  by (cases m) (simp_all add: bindE_def)

lemma fold_max_ge: "a \<le> fold max xs (a::nat)"
proof (induction xs arbitrary: a)
  case Nil
  show ?case by simp
next
  case (Cons x xs)
  have "a \<le> max x a" by simp
  also have "\<dots> \<le> fold max xs (max x a)" by (rule Cons.IH)
  finally show ?case by simp
qed

lemma fold_max_mem: "fold max xs (a::nat) \<in> insert a (set xs)"
proof (induction xs arbitrary: a)
  case Nil
  show ?case by simp
next
  case (Cons x xs)
  have mem: "fold max xs (max x a) \<in> insert (max x a) (set xs)" by (rule Cons.IH)
  have "max x a = x \<or> max x a = a" by (simp add: max_def)
  with mem show ?case by auto
qed

lemma fold_max_upper: "y \<in> set xs \<Longrightarrow> y \<le> fold max xs (a::nat)"
proof (induction xs arbitrary: a)
  case Nil
  then show ?case by simp
next
  case (Cons x xs)
  show ?case
  proof (cases "y = x")
    case True
    have "x \<le> max x a" by simp
    also have "\<dots> \<le> fold max xs (max x a)" by (rule fold_max_ge)
    finally show ?thesis using True by simp
  next
    case False
    with Cons.prems have "y \<in> set xs" by simp
    then show ?thesis using Cons.IH by simp
  qed
qed

lemma np_max_mem: "xs \<noteq> [] \<Longrightarrow> np_max xs \<in> set xs"
  using fold_max_mem [of "tl xs" "hd xs"] by (cases xs) (auto simp: np_max_def)

lemma np_max_upper: "y \<in> set xs \<Longrightarrow> y \<le> np_max xs"
  using fold_max_upper [of y "tl xs" "hd xs"] fold_max_ge [of "hd xs" "tl xs"]
  by (cases xs) (auto simp: np_max_def)

text \<open>
  Claim C10. Whenever \<open>BH_q\<close> returns a result, the result is the first \<open>k\<close> sorted
  p-values and the first \<open>k\<close> order indices, where \<open>k\<close> is the largest 0-based rank whose
  sorted p-value is at most \<open>level * (k + 1) / (2 * m)\<close>. Rank \<open>k\<close> itself is left out
  (exactly \<open>k\<close> p-values are returned), and for \<open>k = 0\<close> both arrays are empty.
\<close>

theorem BH_q_returns_ranks_below_last:
  assumes "BH_q argsort p_value level = Some (ps, sig)"
  shows "\<exists>k. k < length p_value
            \<and> sort p_value ! k \<le> BH_bound (length p_value) level k
            \<and> (\<forall>i. i < length p_value
                   \<and> sort p_value ! i \<le> BH_bound (length p_value) level i \<longrightarrow> i \<le> k)
            \<and> ps = take k (sort p_value) \<and> length ps = k
            \<and> sig = take k (argsort p_value)
            \<and> (k = 0 \<longrightarrow> ps = [] \<and> sig = [])"
proof -
  define m where "m = length p_value"
  define below where
    "below = filter (\<lambda>i. sort p_value ! i - BH_bound m level i \<le> 0) [0..<m]"
  define k where "k = np_max below"
  from assms have ne: "below \<noteq> []"
    by (auto simp: BH_q_def Let_def below_def m_def split: if_splits)
  from assms ne have res: "ps = take k (sort p_value)" "sig = take k (argsort p_value)"
    by (auto simp: BH_q_def Let_def below_def m_def k_def split: if_splits)
  from np_max_mem [OF ne] have kin: "k \<in> set below" by (simp add: k_def)
  then have klt: "k < m" and kb: "sort p_value ! k \<le> BH_bound m level k"
    by (auto simp: below_def)
  have kmax: "i \<le> k" if "i < m" "sort p_value ! i \<le> BH_bound m level i" for i
  proof -
    from that have "i \<in> set below" by (simp add: below_def)
    then show ?thesis unfolding k_def by (rule np_max_upper)
  qed
  have len: "length ps = k" using res(1) klt by (simp add: m_def)
  show ?thesis
    using klt kb kmax res len unfolding m_def by (intro exI [of _ k]) auto
qed

theorem BH_q_returns_ranks_below_last_witness:
  "BH_q stable_argsort [1/100, 1/2] (1/10) = Some ([], [])
   \<and> (\<exists>k. k < length [1/100, 1/2 :: real]
        \<and> sort [1/100, 1/2 :: real] ! k \<le> BH_bound (length [1/100, 1/2 :: real]) (1/10) k
        \<and> (\<forall>i. i < length [1/100, 1/2 :: real]
               \<and> sort [1/100, 1/2 :: real] ! i \<le> BH_bound (length [1/100, 1/2 :: real]) (1/10) i
               \<longrightarrow> i \<le> k)
        \<and> ([]::real list) = take k (sort [1/100, 1/2 :: real]) \<and> length ([]::real list) = k
        \<and> ([]::nat list) = take k (stable_argsort [1/100, 1/2])
        \<and> (k = 0 \<longrightarrow> ([]::real list) = [] \<and> ([]::nat list) = []))"
proof -
  have h: "BH_q stable_argsort [1/100, 1/2] (1/10) = Some ([], [])"
    by (simp add: BH_q_def BH_bound_def np_max_def Let_def upt_conv_Cons)
  show ?thesis using h BH_q_returns_ranks_below_last [OF h] by simp
qed

subsection \<open>Masks, scatter and elementwise arithmetic\<close>

lemma mask_get_Inr:
  "mask_get a m = Inr vs \<longleftrightarrow> length m = length a \<and> vs = map fst (filter snd (zip a m))"
  by (auto simp: mask_get_def)

lemma masked_length:
  "length a = length m \<Longrightarrow> length (filter snd (zip a m)) = count_true m"
  by (induction a m rule: list_induct2) (auto simp: count_true_def)

lemma count_true_take_less:
  "i < length m \<Longrightarrow> m ! i \<Longrightarrow> count_true (take i m) < count_true m"
proof (induction m arbitrary: i)
  case Nil
  then show ?case by simp
next
  case (Cons b m)
  then show ?case by (cases i) (auto simp: count_true_def)
qed

lemma masked_nth:
  "length a = length m \<Longrightarrow> i < length m \<Longrightarrow> m ! i
     \<Longrightarrow> map fst (filter snd (zip a m)) ! count_true (take i m) = a ! i"
proof (induction a m arbitrary: i rule: list_induct2)
  case Nil
  then show ?case by simp
next
  case (Cons x xs b bs)
  then show ?case by (cases i) (auto simp: count_true_def)
qed

lemma scatter_length:
  "length (scatter a m vs) = length a"
  by (induction a m vs rule: scatter.induct) auto

lemma scatter_nth:
  "length a = length m \<Longrightarrow> length vs = count_true m \<Longrightarrow> i < length a
     \<Longrightarrow> scatter a m vs ! i = (if m ! i then vs ! count_true (take i m) else a ! i)"
  by (induction a m vs arbitrary: i rule: scatter.induct)
     (auto simp: count_true_def nth_Cons split: nat.splits)

lemma count_true_Not:
  "count_true (map Not m) + count_true m = length m"
  by (induction m) (auto simp: count_true_def)

lemma np_bin_same_length:
  "length a = length b \<Longrightarrow> np_bin f a b = Inr (map2 f a b)"
  by (simp add: np_bin_def)

lemma soft_thresh_pointwise:
  fixes Z thr :: "real list"
  assumes "length thr = length Z"
  shows "map2 (\<lambda>x b. if b then x else 0)
           (map2 (*) (map sgn Z) (map2 (-) (map abs Z) thr))
           (map2 (\<ge>) (map abs Z) thr)
         = map2 (\<lambda>z t. if \<bar>z\<bar> \<ge> t then sgn z * (\<bar>z\<bar> - t) else 0) Z thr"
  using assms by (auto simp: list_eq_iff_nth_eq)

subsection \<open>The two conventions for the conditional mean\<close>

lemma map2_neg_sub:
  "map2 (-) (map uminus s) c = map uminus (map2 (+) s (c::real list))"
  by (induction s c rule: list_induct2') auto

lemma np_bin_neg_sub:
  "np_bin (-) (map uminus s) (c::real list)
     = bindE (np_bin (+) s c) (\<lambda>t. Inr (map uminus t))"
proof -
  have "hd (map uminus s) = - hd s" if "length s = 1"
    using that by (cases s) auto
  then show ?thesis
    by (auto simp: np_bin_def bindE_simps map2_neg_sub)
qed

lemma sum_list_neg_cong:
  fixes f g :: "nat \<Rightarrow> real"
  assumes "\<And>k. k \<in> set ks \<Longrightarrow> f k = - g k"
  shows "sum_list (map f ks) = - sum_list (map g ks)"
  using assms by (induction ks) auto

lemma dot_mv_neg:
  "dot_mv L (map uminus t) = bindE (dot_mv L t) (\<lambda>m. Inr (map uminus m))"
  by (auto simp: dot_mv_def bindE_simps intro!: sum_list_neg_cong)

lemma cond_mean_same:
  "screening_cond_mean L s c = slope_cond_mean L s c"
  unfolding screening_cond_mean_def slope_cond_mean_def np_bin_neg_sub
  by (cases "np_bin (+) s c") (simp_all add: bindE_simps dot_mv_neg)

subsection \<open>Evaluation on concrete arrays\<close>

lemmas np_eval = np_bin_def mask_get_def mask_set_def mask_fill_def count_true_def item_def take_idx_def put_idx_def
  np_unique_def mk_mat_def entry_def np_zeros2_def np_diag_def np_identity_def transpose_m_def scale_m_def neg_m_def
  dot_mm_def dot_mv_def cols_mask_def cols_idx_def rows_mask_def rows_mask_set_def scale_rows_def minor_def np_linalg_inv_def
  bindE_def cov_prec_def Let_def upt_conv_Cons eval_nat_numeral scatter_length

lemma sum_list_cong_upt:
  fixes f g :: "nat \<Rightarrow> real"
  assumes "\<And>k. k < n \<Longrightarrow> f k = g k"
  shows "sum_list (map f [0..<n]) = sum_list (map g [0..<n])"
  using assms by (intro arg_cong [where f = sum_list] map_cong) auto

text \<open>
  Claim C1. The marginal-screening expression \<open>logdens_linear.dot(-s - c)\<close> and the
  SLOPE expression \<open>-logdens_linear.dot(s + c)\<close> are the same function of the matrix,
  the score and the offset, and for matching dimensions both are
  \<open>-logdens_linear \<cdot> (s + c)\<close>, entry by entry.
\<close>

theorem cond_mean_sign_conventions_agree:
  "screening_cond_mean L s c = slope_cond_mean L s c
   \<and> (length s = length c \<and> ncols L = length s \<longrightarrow>
        slope_cond_mean L s c
          = Inr (map (\<lambda>i. - sum_list (map (\<lambda>k. entry L i k * (s ! k + c ! k)) [0..<ncols L]))
                   [0..<nrows L]))"
proof (intro conjI impI)
  show "screening_cond_mean L s c = slope_cond_mean L s c" by (rule cond_mean_same)
next
  assume h: "length s = length c \<and> ncols L = length s"
  then have nb: "np_bin (+) s c = Inr (map2 (+) s c)" by (simp add: np_bin_def)
  have len: "ncols L = length (map2 (+) s c)" using h by simp
  have "sum_list (map (\<lambda>k. entry L i k * map2 (+) s c ! k) [0..<ncols L])
        = sum_list (map (\<lambda>k. entry L i k * (s ! k + c ! k)) [0..<ncols L])" for i
    using h by (intro sum_list_cong_upt) simp
  then show "slope_cond_mean L s c
          = Inr (map (\<lambda>i. - sum_list (map (\<lambda>k. entry L i k * (s ! k + c ! k)) [0..<ncols L]))
                   [0..<nrows L])"
    unfolding slope_cond_mean_def nb bindE_simps dot_mv_def using len by (simp add: o_def bindE_simps)
qed

theorem cond_mean_sign_conventions_agree_witness:
  "screening_cond_mean (Mat 1 2 [[1, 0]]) [- 2, - 1 / 2] [1, - 1 / 2]
     = slope_cond_mean (Mat 1 2 [[1, 0]]) [- 2, - 1 / 2] [1, - 1 / 2]
   \<and> length [- 2, - 1 / 2 :: real] = length [1, - 1 / 2 :: real]
   \<and> ncols (Mat 1 2 [[1, 0]]) = length [- 2, - 1 / 2 :: real]
   \<and> slope_cond_mean (Mat 1 2 [[1, 0]]) [- 2, - 1 / 2] [1, - 1 / 2] = Inr [1]"
  using cond_mean_sign_conventions_agree [of "Mat 1 2 [[1, 0]]" "[- 2, - 1 / 2]" "[1, - 1 / 2]"]
  by (simp add: entry_def upt_conv_Cons)

subsection \<open>Marginal screening: what the stages of fit compute\<close>

lemma screening_select_facts:
  assumes "screening_select self omega = Inr (rs, Z, soft, act, asg, sg, ost)"
  shows "np_bin (-) (marginal_screening.observed_score_state self) omega = Inr rs"
    and "Z = map uminus rs"
    and "act = map (\<lambda>x. x \<noteq> 0) soft"
    and "length soft = length Z"
    and "asg = map fst (filter snd (zip (map sgn Z) act))"
    and "sg = map2 (\<lambda>x b. if b then 0 else x) (map sgn Z) (map Not act)"
    and "ost = map abs (map fst (filter snd (zip soft act)))"
    and "length (threshold self) = length Z \<Longrightarrow>
           soft = map2 (\<lambda>z t. if \<bar>z\<bar> \<ge> t then sgn z * (\<bar>z\<bar> - t) else 0) Z (threshold self)"
proof -
  from assms obtain excess signed passes kept where
    rs: "np_bin (-) (marginal_screening.observed_score_state self) omega = Inr rs"
    and Z: "Z = map uminus rs"
    and ex: "np_bin (-) (map abs Z) (threshold self) = Inr excess"
    and si: "np_bin (*) (map sgn Z) excess = Inr signed"
    and pa: "np_bin (\<ge>) (map abs Z) (threshold self) = Inr passes"
    and so: "np_bin (\<lambda>x b. if b then x else 0) signed passes = Inr soft"
    and act: "act = map (\<lambda>x. x \<noteq> 0) soft"
    and asg: "mask_get (map sgn Z) act = Inr asg"
    and sg: "mask_fill (map sgn Z) (map Not act) 0 = Inr sg"
    and kept: "mask_get soft act = Inr kept"
    and ost: "ost = map abs kept"
    unfolding screening_select_def Let_def bindE_eq_Inr by auto
  show "np_bin (-) (marginal_screening.observed_score_state self) omega = Inr rs" by (rule rs)
  show "Z = map uminus rs" by (rule Z)
  show "act = map (\<lambda>x. x \<noteq> 0) soft" by (rule act)
  from asg have la: "length act = length Z" by (simp add: mask_get_Inr)
  with act show ls: "length soft = length Z" by simp
  from asg show "asg = map fst (filter snd (zip (map sgn Z) act))" by (simp add: mask_get_Inr)
  from sg show "sg = map2 (\<lambda>x b. if b then 0 else x) (map sgn Z) (map Not act)"
    by (auto simp: mask_fill_def split: if_splits)
  from kept ost show "ost = map abs (map fst (filter snd (zip soft act)))"
    by (simp add: mask_get_Inr)
  show "soft = map2 (\<lambda>z t. if \<bar>z\<bar> \<ge> t then sgn z * (\<bar>z\<bar> - t) else 0) Z (threshold self)"
    if lt: "length (threshold self) = length Z"
  proof -
    from ex lt have "excess = map2 (-) (map abs Z) (threshold self)"
      by (simp add: np_bin_same_length)
    moreover from this si lt have "signed = map2 (*) (map sgn Z) excess"
      by (simp add: np_bin_same_length)
    moreover from pa lt have "passes = map2 (\<ge>) (map abs Z) (threshold self)"
      by (simp add: np_bin_same_length)
    ultimately have "soft = map2 (\<lambda>x b. if b then x else 0)
           (map2 (*) (map sgn Z) (map2 (-) (map abs Z) (threshold self)))
           (map2 (\<ge>) (map abs Z) (threshold self))"
      using so lt by (simp add: np_bin_same_length)
    then show ?thesis using soft_thresh_pointwise [OF lt] by simp
  qed
qed

lemma mk_mat_sel [simp]:
  "nrows (mk_mat nr nc f) = nr" "ncols (mk_mat nr nc f) = nc"
  "rows (mk_mat nr nc f) = map (\<lambda>i. map (\<lambda>j. f i j) [0..<nc]) [0..<nr]"
  by (simp_all add: mk_mat_def)

lemma mask_set_exact:
  "length m = length a \<Longrightarrow> length vs = count_true m \<Longrightarrow> mask_set a m vs = Inr (scatter a m vs)"
  by (simp add: mask_set_def)

lemma screening_transform_facts:
  assumes tr: "screening_transform self rs act asg k = Inr (L, c)"
  shows "length act = marginal_screening.nfeature self"
    and "length (threshold self) = marginal_screening.nfeature self"
    and "length rs = marginal_screening.nfeature self"
    and "length asg = count_true act"
    and "k = count_true act"
    and "nrows L = marginal_screening.nfeature self"
    and "ncols L = k"
    and "rows L = scatter (rows (np_zeros2 (marginal_screening.nfeature self) k)) act (rows (np_diag asg))"
    and "length c = marginal_screening.nfeature self"
    and "\<And>i. i < marginal_screening.nfeature self \<Longrightarrow>
           c ! i = (if act ! i then asg ! count_true (take i act) * threshold self ! i
                    else rs ! i)"
proof -
  define p where "p = marginal_screening.nfeature self"
  from tr obtain thr signed_thr offset1 raw where
    L: "rows_mask_set (np_zeros2 p k) act (np_diag asg) = Inr L"
    and thr: "mask_get (threshold self) act = Inr thr"
    and st: "np_bin (*) asg thr = Inr signed_thr"
    and o1: "mask_set (replicate p 0) act signed_thr = Inr offset1"
    and raw: "mask_get rs (map Not act) = Inr raw"
    and c: "mask_set offset1 (map Not act) raw = Inr c"
    unfolding screening_transform_def Let_def bindE_eq_Inr p_def by auto
  from L have la: "length act = p" and lasg: "length asg = count_true act" and k: "k = count_true act"
    and Leq: "L = Mat p k (scatter (rows (np_zeros2 p k)) act (rows (np_diag asg)))"
    by (auto simp: rows_mask_set_def np_zeros2_def np_diag_def split: if_splits)
  from thr have lthr: "length (threshold self) = p"
    and thr_eq: "thr = map fst (filter snd (zip (threshold self) act))"
    using la by (auto simp: mask_get_Inr)
  from raw have lrs: "length rs = p"
    and raw_eq: "raw = map fst (filter snd (zip rs (map Not act)))"
    using la by (auto simp: mask_get_Inr)
  have lthr': "length thr = count_true act"
    using thr_eq lthr la by (simp add: masked_length)
  have st_eq: "signed_thr = map2 (*) asg thr"
    using st lasg lthr' by (simp add: np_bin_same_length)
  have o1_eq: "offset1 = scatter (replicate p 0) act signed_thr"
    using o1 la st_eq lasg lthr' by (simp add: mask_set_exact)
  have lraw: "length raw = count_true (map Not act)"
    using raw_eq lrs la by (simp add: masked_length)
  have c_eq: "c = scatter offset1 (map Not act) raw"
    using c la o1_eq lraw by (simp add: mask_set_exact scatter_length)
  show "length act = marginal_screening.nfeature self" using la by (simp add: p_def)
  show "length (threshold self) = marginal_screening.nfeature self" using lthr by (simp add: p_def)
  show "length rs = marginal_screening.nfeature self" using lrs by (simp add: p_def)
  show "length asg = count_true act" by (rule lasg)
  show "k = count_true act" by (rule k)
  show "nrows L = marginal_screening.nfeature self" using Leq by (simp add: p_def)
  show "ncols L = k" using Leq by simp
  show "rows L = scatter (rows (np_zeros2 (marginal_screening.nfeature self) k)) act (rows (np_diag asg))"
    using Leq by (simp add: p_def)
  show "length c = marginal_screening.nfeature self"
    using c_eq o1_eq by (simp add: scatter_length p_def)
  show "c ! i = (if act ! i then asg ! count_true (take i act) * threshold self ! i else rs ! i)"
    if "i < marginal_screening.nfeature self" for i
  proof -
    from that have ip: "i < p" by (simp add: p_def)
    have o1i: "offset1 ! i = (if act ! i then signed_thr ! count_true (take i act) else 0)"
      using ip la st_eq lasg lthr' by (simp add: o1_eq scatter_nth)
    have ci: "c ! i = (if \<not> act ! i then raw ! count_true (take i (map Not act)) else offset1 ! i)"
      using ip la lraw o1_eq by (simp add: c_eq scatter_nth scatter_length)
    show ?thesis
    proof (cases "act ! i")
      case True
      then have lt: "count_true (take i act) < count_true act"
        using ip la by (simp add: count_true_take_less)
      have "thr ! count_true (take i act) = threshold self ! i"
        unfolding thr_eq using True ip la lthr by (intro masked_nth) simp_all
      then show ?thesis using True ci o1i lt lasg lthr' by (simp add: st_eq)
    next
      case False
      have "raw ! count_true (take i (map Not act)) = rs ! i"
        unfolding raw_eq take_map [symmetric] using False ip la lrs
        by (intro masked_nth) simp_all
      then show ?thesis using False ci by simp
    qed
  qed
qed

subsection \<open>Marginal screening: the fitted object\<close>

lemma screening_build_facts:
  assumes "screening_build self omega = Inr r"
  shows "\<exists>rs Z soft act asg sg ost L c.
           screening_select self omega = Inr (rs, Z, soft, act, asg, sg, ost)
         \<and> screening_transform self rs act asg (length ost) = Inr (L, c)
         \<and> screening_fitted.initial_soln r = soft
         \<and> selected r = act
         \<and> screening_fitted.selection_variable r = \<lparr>sign = sg, variables = act\<rparr>
         \<and> screening_fitted.observed_opt_state r = ost
         \<and> screening_fitted.num_opt_var r = length ost
         \<and> screening_fitted.opt_transform r = (L, c)"
  using assms
  by (auto simp: screening_build_def Let_def bindE_eq_Inr split: prod.splits)

lemma screening_fit_facts:
  assumes "screening_fit self draw perturb = (self', Inr r)"
  shows "\<exists>omega. self' = self\<lparr>marginal_screening.initial_omega := Some omega\<rparr>
           \<and> screening_build self' omega = Inr r"
  using assms unfolding screening_fit_def Let_def by auto

lemmas screening_eval = screening_fit_def screening_build_def screening_select_def
  screening_transform_def cond_gaussian_def screening_cond_mean_def

lemma example_screening_fit:
  "screening_fit example_screening [0, 0] None
     = (example_screening\<lparr>marginal_screening.initial_omega := Some [0, 0]\<rparr>,
        Inr example_screening_fitted)"
  by (simp add: screening_fit_def screening_build_def screening_select_def
        screening_transform_def cond_gaussian_def screening_cond_mean_def
        example_screening_def example_screening_fitted_def np_eval)

lemma example_screening_negative_fit:
  "screening_fit example_screening_negative [0] None
     = (example_screening_negative\<lparr>marginal_screening.initial_omega := Some [0]\<rparr>,
        Inr example_screening_negative_fitted)"
  by (simp add: screening_eval example_screening_negative_def
        example_screening_negative_fitted_def np_eval)

lemma example_screening_empty_fit:
  "screening_fit example_screening_empty [0] None
     = (example_screening_empty\<lparr>marginal_screening.initial_omega := Some [0]\<rparr>,
        Inr example_screening_empty_fitted)"
  by (simp add: screening_eval example_screening_empty_def
        example_screening_empty_fitted_def np_eval)

lemma mask_fill_not_nth:
  "length a = length m \<Longrightarrow> i < length m \<Longrightarrow> m ! i
     \<Longrightarrow> map2 (\<lambda>x b. if b then c else x) a (map Not m) ! i = a ! i"
  by simp

text \<open>
  Claim C4. In \<open>marginal_screening.fit\<close>, at a coordinate whose threshold is 1: a
  perturbed statistic \<open>Z\<close> of 0.5 leaves the coordinate unselected; a \<open>Z\<close> of 2 selects
  it, the entry of \<open>observed_opt_state\<close> that belongs to it (at the rank of the coordinate
  among the selected ones) is 2 - 1 = 1, and its recorded sign is +1. \<open>Z\<close> is the vector
  of that name in \<open>fit\<close>, the second output of \<open>screening_select\<close>.
\<close>

theorem screening_soft_threshold_at_unit_threshold:
  assumes fit: "screening_fit self draw perturb = (self', Inr r)"
  shows "\<exists>omega rs Z soft act asg sg ost.
           marginal_screening.initial_omega self' = Some omega
         \<and> screening_select self' omega = Inr (rs, Z, soft, act, asg, sg, ost)
         \<and> length Z = length (threshold self)
         \<and> (\<forall>i<length Z. threshold self ! i = 1 \<longrightarrow>
              (Z ! i = 1 / 2 \<longrightarrow> \<not> selected r ! i)
            \<and> (Z ! i = 2 \<longrightarrow> selected r ! i
                  \<and> screening_fitted.observed_opt_state r ! count_true (take i (selected r)) = 1
                  \<and> sign (screening_fitted.selection_variable r) ! i = 1))"
proof -
  from screening_fit_facts [OF fit] obtain omega where
    self': "self' = self\<lparr>marginal_screening.initial_omega := Some omega\<rparr>"
    and build: "screening_build self' omega = Inr r" by blast
  from screening_build_facts [OF build] obtain rs Z soft act asg sg ost L c where
    sel: "screening_select self' omega = Inr (rs, Z, soft, act, asg, sg, ost)"
    and tr: "screening_transform self' rs act asg (length ost) = Inr (L, c)"
    and r_sel: "selected r = act"
    and r_var: "screening_fitted.selection_variable r = \<lparr>sign = sg, variables = act\<rparr>"
    and r_ost: "screening_fitted.observed_opt_state r = ost" by blast
  have thr: "threshold self' = threshold self" by (simp add: self')
  note s = screening_select_facts [OF sel]
  note t = screening_transform_facts [OF tr]
  have la: "length act = length Z" using s(3) s(4) by simp
  have lt: "length (threshold self') = length Z" using t(1) t(2) la by simp
  have soft: "soft = map2 (\<lambda>z t. if \<bar>z\<bar> \<ge> t then sgn z * (\<bar>z\<bar> - t) else 0) Z (threshold self)"
    using s(8) [OF lt] thr by simp
  have main: "(Z ! i = 1 / 2 \<longrightarrow> \<not> selected r ! i)
            \<and> (Z ! i = 2 \<longrightarrow> selected r ! i
                  \<and> screening_fitted.observed_opt_state r ! count_true (take i (selected r)) = 1
                  \<and> sign (screening_fitted.selection_variable r) ! i = 1)"
    if i: "i < length Z" and one: "threshold self ! i = 1" for i
  proof -
    have si: "soft ! i = (if \<bar>Z ! i\<bar> \<ge> 1 then sgn (Z ! i) * (\<bar>Z ! i\<bar> - 1) else 0)"
      using i lt thr one by (simp add: soft)
    have ai: "act ! i \<longleftrightarrow> soft ! i \<noteq> 0" using i s(4) by (simp add: s(3))
    have low: "\<not> act ! i" if "Z ! i = 1 / 2" using that si ai by simp
    have high: "act ! i \<and> ost ! count_true (take i act) = 1 \<and> sg ! i = 1" if z: "Z ! i = 2"
    proof -
      from z si have s1: "soft ! i = 1" by simp
      with ai have a: "act ! i" by simp
      have "map fst (filter snd (zip soft act)) ! count_true (take i act) = soft ! i"
        using a i la s(4) by (intro masked_nth) simp_all
      moreover have "count_true (take i act) < count_true act"
        using a i la by (simp add: count_true_take_less)
      ultimately have o: "ost ! count_true (take i act) = 1"
        using s1 s(4) la by (simp add: s(7) masked_length)
      have "sg ! i = sgn (Z ! i)" using a i la by (simp add: s(6))
      with z a o show ?thesis by simp
    qed
    show ?thesis using low high by (simp add: r_sel r_ost r_var)
  qed
  have "marginal_screening.initial_omega self' = Some omega" by (simp add: self')
  moreover have "length Z = length (threshold self)" using lt thr by simp
  ultimately show ?thesis using sel main by blast
qed

theorem screening_soft_threshold_at_unit_threshold_witness:
  "screening_fit example_screening [0, 0] None
     = (example_screening\<lparr>marginal_screening.initial_omega := Some [0, 0]\<rparr>,
        Inr example_screening_fitted)
   \<and> (\<exists>omega rs Z soft act asg sg ost.
           marginal_screening.initial_omega
             (example_screening\<lparr>marginal_screening.initial_omega := Some [0, 0]\<rparr>) = Some omega
         \<and> screening_select
               (example_screening\<lparr>marginal_screening.initial_omega := Some [0, 0]\<rparr>) omega
             = Inr (rs, Z, soft, act, asg, sg, ost)
         \<and> length Z = length (threshold example_screening)
         \<and> (\<forall>i<length Z. threshold example_screening ! i = 1 \<longrightarrow>
              (Z ! i = 1 / 2 \<longrightarrow> \<not> selected example_screening_fitted ! i)
            \<and> (Z ! i = 2 \<longrightarrow> selected example_screening_fitted ! i
                  \<and> screening_fitted.observed_opt_state example_screening_fitted
                      ! count_true (take i (selected example_screening_fitted)) = 1
                  \<and> sign (screening_fitted.selection_variable example_screening_fitted) ! i = 1)))"
  using screening_soft_threshold_at_unit_threshold [OF example_screening_fit]
    example_screening_fit by blast

text \<open>
  Claim C5, as amended. After \<open>marginal_screening.fit\<close>, \<open>opt_linear\<close> is \<open>p\<close> by
  \<open>num_opt_var\<close>; the row of the \<open>j\<close>-th selected coordinate has the selection sign (+1 or
  -1) in column \<open>j\<close> and zeros elsewhere, and every other row is zero. \<open>opt_offset\<close>
  carries the selection sign times the threshold on each selected row (the threshold
  itself only where the sign is +1) and the raw perturbed score \<open>_randomized_score\<close> on
  each row that is not selected.
\<close>

theorem screening_affine_transform_structure:
  assumes fit: "screening_fit self draw perturb = (self', Inr r)"
  shows "\<exists>omega rs Z soft act asg sg ost L c.
           marginal_screening.initial_omega self' = Some omega
         \<and> screening_select self' omega = Inr (rs, Z, soft, act, asg, sg, ost)
         \<and> screening_fitted.opt_transform r = (L, c)
         \<and> nrows L = marginal_screening.nfeature self
         \<and> ncols L = screening_fitted.num_opt_var r
         \<and> length (rows L) = marginal_screening.nfeature self
         \<and> length c = marginal_screening.nfeature self
         \<and> length (selected r) = marginal_screening.nfeature self
         \<and> (\<forall>i<marginal_screening.nfeature self.
               (selected r ! i \<longrightarrow>
                   \<bar>sign (screening_fitted.selection_variable r) ! i\<bar> = 1
                 \<and> count_true (take i (selected r)) < screening_fitted.num_opt_var r
                 \<and> rows L ! i = map (\<lambda>j. if j = count_true (take i (selected r))
                                           then sign (screening_fitted.selection_variable r) ! i
                                           else 0) [0..<screening_fitted.num_opt_var r]
                 \<and> c ! i = sign (screening_fitted.selection_variable r) ! i * threshold self ! i)
             \<and> (\<not> selected r ! i \<longrightarrow>
                   rows L ! i = replicate (screening_fitted.num_opt_var r) 0
                 \<and> c ! i = rs ! i))"
proof -
  from screening_fit_facts [OF fit] obtain omega where
    self': "self' = self\<lparr>marginal_screening.initial_omega := Some omega\<rparr>"
    and build: "screening_build self' omega = Inr r" by blast
  from screening_build_facts [OF build] obtain rs Z soft act asg sg ost L c where
    sel: "screening_select self' omega = Inr (rs, Z, soft, act, asg, sg, ost)"
    and tr: "screening_transform self' rs act asg (length ost) = Inr (L, c)"
    and r_sel: "selected r = act"
    and r_var: "screening_fitted.selection_variable r = \<lparr>sign = sg, variables = act\<rparr>"
    and r_ost: "screening_fitted.observed_opt_state r = ost"
    and r_k: "screening_fitted.num_opt_var r = length ost"
    and r_tr: "screening_fitted.opt_transform r = (L, c)" by blast
  define p where "p = marginal_screening.nfeature self"
  define k where "k = length ost"
  have thr: "threshold self' = threshold self" and p': "marginal_screening.nfeature self' = p"
    by (simp_all add: self' p_def)
  note s = screening_select_facts [OF sel]
  note t = screening_transform_facts [OF tr, unfolded p' thr, folded k_def]
  have la: "length act = p" by (rule t(1))
  have lZ: "length Z = p" using s(3) s(4) la by simp
  have lt: "length (threshold self') = length Z" using t(2) lZ thr by simp
  have soft: "soft = map2 (\<lambda>z t. if \<bar>z\<bar> \<ge> t then sgn z * (\<bar>z\<bar> - t) else 0) Z (threshold self)"
    using s(8) [OF lt] thr by simp
  have lrows: "length (rows L) = p"
    using t(8) by (simp add: scatter_length np_zeros2_def)
  have sel_row: "\<bar>sg ! i\<bar> = 1 \<and> count_true (take i act) < k
         \<and> rows L ! i = map (\<lambda>j. if j = count_true (take i act) then sg ! i else 0) [0..<k]
         \<and> c ! i = sg ! i * threshold self ! i"
    if i: "i < p" and a: "act ! i" for i
  proof -
    let ?j = "count_true (take i act)"
    have jk: "?j < k" using a i la t(5) by (simp add: count_true_take_less)
    have sgi: "sg ! i = sgn (Z ! i)" using a i la lZ by (simp add: s(6))
    have "soft ! i \<noteq> 0" using a i la s(4) lZ by (simp add: s(3))
    then have "Z ! i \<noteq> 0" using i lZ lt thr by (auto simp: soft split: if_splits)
    then have abs1: "\<bar>sg ! i\<bar> = 1" unfolding sgi by (simp add: abs_sgn_eq)
    have asgj: "asg ! ?j = sg ! i"
      unfolding s(5) sgi using a i la lZ
      by (subst masked_nth) simp_all
    have "rows L ! i = rows (np_diag asg) ! ?j"
      using i la a t(4) t(5) by (simp add: t(8) scatter_nth np_zeros2_def np_diag_def)
    also have "\<dots> = map (\<lambda>j. if ?j = j then asg ! ?j else 0) [0..<k]"
      using jk t(4) t(5) by (simp add: np_diag_def)
    also have "\<dots> = map (\<lambda>j. if j = ?j then sg ! i else 0) [0..<k]"
      by (auto simp: asgj)
    finally have row: "rows L ! i = map (\<lambda>j. if j = ?j then sg ! i else 0) [0..<k]" .
    have "c ! i = sg ! i * threshold self ! i"
      using t(10) [OF i] a asgj by simp
    with abs1 jk row show ?thesis by simp
  qed
  have unsel_row: "rows L ! i = replicate k 0 \<and> c ! i = rs ! i"
    if i: "i < p" and a: "\<not> act ! i" for i
  proof -
    have "rows L ! i = rows (np_zeros2 p k) ! i"
      using i la a t(4) t(5) by (simp add: t(8) scatter_nth np_zeros2_def np_diag_def)
    also have "\<dots> = replicate k 0" using i by (simp add: np_zeros2_def map_replicate_const)
    finally have "rows L ! i = replicate k 0" .
    moreover have "c ! i = rs ! i" using t(10) [OF i] a by simp
    ultimately show ?thesis by simp
  qed
  have all: "\<forall>i<p.
               (act ! i \<longrightarrow>
                   \<bar>sg ! i\<bar> = 1
                 \<and> count_true (take i act) < k
                 \<and> rows L ! i = map (\<lambda>j. if j = count_true (take i act) then sg ! i else 0) [0..<k]
                 \<and> c ! i = sg ! i * threshold self ! i)
             \<and> (\<not> act ! i \<longrightarrow> rows L ! i = replicate k 0 \<and> c ! i = rs ! i)"
    using sel_row unsel_row by blast
  have om: "marginal_screening.initial_omega self' = Some omega" by (simp add: self')
  have sgn_r: "sign (screening_fitted.selection_variable r) = sg" by (simp add: r_var)
  have k_r: "screening_fitted.num_opt_var r = k" by (simp add: r_k k_def)
  show ?thesis
    unfolding r_sel sgn_r k_r p_def [symmetric]
    using om sel r_tr t(6) t(7) lrows t(9) la all by blast
qed

theorem screening_affine_transform_structure_witness:
  "screening_fit example_screening_negative [0] None
     = (example_screening_negative\<lparr>marginal_screening.initial_omega := Some [0]\<rparr>,
        Inr example_screening_negative_fitted)
   \<and> (\<exists>omega rs Z soft act asg sg ost L c.
           marginal_screening.initial_omega
             (example_screening_negative\<lparr>marginal_screening.initial_omega := Some [0]\<rparr>)
             = Some omega
         \<and> screening_select
               (example_screening_negative\<lparr>marginal_screening.initial_omega := Some [0]\<rparr>) omega
             = Inr (rs, Z, soft, act, asg, sg, ost)
         \<and> screening_fitted.opt_transform example_screening_negative_fitted = (L, c)
         \<and> nrows L = marginal_screening.nfeature example_screening_negative
         \<and> ncols L = screening_fitted.num_opt_var example_screening_negative_fitted
         \<and> length (rows L) = marginal_screening.nfeature example_screening_negative
         \<and> length c = marginal_screening.nfeature example_screening_negative
         \<and> length (selected example_screening_negative_fitted)
             = marginal_screening.nfeature example_screening_negative
         \<and> (\<forall>i<marginal_screening.nfeature example_screening_negative.
               (selected example_screening_negative_fitted ! i \<longrightarrow>
                   \<bar>sign (screening_fitted.selection_variable example_screening_negative_fitted) ! i\<bar> = 1
                 \<and> count_true (take i (selected example_screening_negative_fitted))
                     < screening_fitted.num_opt_var example_screening_negative_fitted
                 \<and> rows L ! i
                     = map (\<lambda>j. if j = count_true (take i (selected example_screening_negative_fitted))
                                 then sign (screening_fitted.selection_variable
                                              example_screening_negative_fitted) ! i
                                 else 0)
                         [0..<screening_fitted.num_opt_var example_screening_negative_fitted]
                 \<and> c ! i = sign (screening_fitted.selection_variable
                                   example_screening_negative_fitted) ! i
                             * threshold example_screening_negative ! i)
             \<and> (\<not> selected example_screening_negative_fitted ! i \<longrightarrow>
                   rows L ! i
                     = replicate (screening_fitted.num_opt_var example_screening_negative_fitted) 0
                 \<and> c ! i = rs ! i)))"
  using screening_affine_transform_structure [OF example_screening_negative_fit]
    example_screening_negative_fit by blast

text \<open>
  The claim as first stated, with the threshold itself on every selected row, fails on a
  coordinate selected with a negative sign: for data -2, threshold 1 and perturbation 0
  the offset of the selected row is -1.
\<close>

theorem screening_offset_is_not_threshold_counterexample:
  "screening_fit example_screening_negative [0] None
     = (example_screening_negative\<lparr>marginal_screening.initial_omega := Some [0]\<rparr>,
        Inr example_screening_negative_fitted)
   \<and> selected example_screening_negative_fitted ! 0
   \<and> threshold example_screening_negative ! 0 = 1
   \<and> snd (screening_fitted.opt_transform example_screening_negative_fitted) ! 0 = - 1
   \<and> snd (screening_fitted.opt_transform example_screening_negative_fitted) ! 0
       \<noteq> threshold example_screening_negative ! 0"
  using example_screening_negative_fit
  by (simp add: example_screening_negative_def example_screening_negative_fitted_def)

subsection \<open>SLOPE: the clustering loop\<close>

lemma item_nth: "i < length a \<Longrightarrow> item a i = Inr (a ! i)"
  by (simp add: item_def)

lemma take_idx_ok:
  "list_all (\<lambda>i. i < length a) idx \<Longrightarrow> take_idx a idx = Inr (map (\<lambda>i. a ! i) idx)"
  by (simp add: take_idx_def)

lemma put_idx_ok:
  "list_all (\<lambda>i. i < length a) idx \<Longrightarrow> length vs = length idx
     \<Longrightarrow> put_idx a idx vs = Inr (fold (\<lambda>(i, v) b. b[i := v]) (zip idx vs) a)"
  by (simp add: put_idx_def)

lemma close_cluster_ok:
  assumes len: "length indices = p" and rng: "list_all (\<lambda>i. i < length soln) indices"
    and i: "Suc i < p" and ptr: "pointer s + 1 = length (cur_indx_array s)"
  shows "\<exists>sign_vec. close_cluster p soln indices i s
           = Inr \<lparr>cur_indx_array = cur_indx_array s @ [Suc i], cur_indx = Suc i,
                  pointer = Suc (pointer s), signs_cluster = signs_cluster s @ [sign_vec]\<rparr>"
proof -
  define c where "c = (cur_indx_array s @ [Suc i]) ! pointer s"
  define pos where "pos = map (\<lambda>t. t + c) [0..<Suc i - c]"
  define src where "src = map (\<lambda>j. indices ! j) pos"
  define vals where "vals = map (\<lambda>j. soln ! j) src"
  have it: "item (cur_indx_array s @ [Suc i]) (pointer s) = Inr c"
    using ptr by (simp add: item_nth c_def)
  have pos: "list_all (\<lambda>j. j < p) pos" using i by (auto simp: list_all_iff pos_def)
  have t1: "take_idx indices pos = Inr src"
    unfolding src_def using pos len by (intro take_idx_ok) simp
  have "list_all (\<lambda>j. j < length soln) src"
    using pos rng len by (auto simp: list_all_iff src_def)
  then have t2: "take_idx soln src = Inr vals"
    unfolding vals_def by (rule take_idx_ok)
  have "\<exists>v. put_idx (replicate p 0) pos (map sgn vals) = Inr v"
    using pos by (subst put_idx_ok) (simp_all add: vals_def src_def)
  then obtain v where t3: "put_idx (replicate p 0) pos (map sgn vals) = Inr v" ..
  have "close_cluster p soln indices i s
           = Inr \<lparr>cur_indx_array = cur_indx_array s @ [Suc i], cur_indx = Suc i,
                  pointer = Suc (pointer s), signs_cluster = signs_cluster s @ [v]\<rparr>"
    by (simp only: close_cluster_def Let_def Suc_eq_plus1 [symmetric] it bindE_simps
          pos_def [symmetric] t1 t2 t3)
  then show ?thesis by blast
qed

lemma cluster_loop_count:
  assumes ls: "length ss = p" and len: "length indices = p"
    and rng: "list_all (\<lambda>i. i < length soln) indices"
  shows "i < p \<Longrightarrow> cur_indx s < p \<Longrightarrow> pointer s + 1 = length (cur_indx_array s) \<Longrightarrow>
     \<exists>s'. cluster_loop p ss soln indices [i..<p - 1] s = Inr s'
        \<and> length (signs_cluster s')
            = length (signs_cluster s)
              + closed_clusters \<bar>ss ! cur_indx s\<bar> (map abs (drop (Suc i) ss))"
proof (induction "p - 1 - i" arbitrary: i s)
  case 0
  then have e: "[i..<p - 1] = []" and d: "drop (Suc i) ss = []" using ls by simp_all
  show ?case unfolding e d by simp
next
  case (Suc n)
  then have i: "Suc i < p" and n: "n = p - 1 - Suc i" by simp_all
  have upt: "[i..<p - 1] = i # [Suc i..<p - 1]" using i by (simp add: upt_conv_Cons)
  have drp: "drop (Suc i) ss = ss ! Suc i # drop (Suc (Suc i)) ss"
    using i ls by (simp add: Cons_nth_drop_Suc)
  have it1: "item ss (Suc i) = Inr (ss ! Suc i)" using i ls by (simp add: item_nth)
  have it2: "item ss (cur_indx s) = Inr (ss ! cur_indx s)"
    using Suc.prems ls by (simp add: item_nth)
  show ?case
  proof (cases "\<bar>ss ! Suc i\<bar> = \<bar>ss ! cur_indx s\<bar>")
    case True
    from Suc.hyps(1) [OF n i Suc.prems(2) Suc.prems(3)] obtain s' where
      "cluster_loop p ss soln indices [Suc i..<p - 1] s = Inr s'"
      "length (signs_cluster s') = length (signs_cluster s)
          + closed_clusters \<bar>ss ! cur_indx s\<bar> (map abs (drop (Suc (Suc i)) ss))"
      by blast
    then show ?thesis using True unfolding upt drp by (simp add: it1 it2 bindE_simps)
  next
    case False
    from close_cluster_ok [OF len rng i Suc.prems(3)] obtain sign_vec where
      cc: "close_cluster p soln indices i s
           = Inr \<lparr>cur_indx_array = cur_indx_array s @ [Suc i], cur_indx = Suc i,
                  pointer = Suc (pointer s), signs_cluster = signs_cluster s @ [sign_vec]\<rparr>"
      by blast
    define s1 where "s1 = \<lparr>cur_indx_array = cur_indx_array s @ [Suc i], cur_indx = Suc i,
                  pointer = Suc (pointer s), signs_cluster = signs_cluster s @ [sign_vec]\<rparr>"
    have unfold: "cluster_loop p ss soln indices [i..<p - 1] s
        = (if ss ! Suc i = 0 then Inr s1 else cluster_loop p ss soln indices [Suc i..<p - 1] s1)"
      unfolding upt using False by (simp add: it1 it2 cc bindE_simps s1_def)
    show ?thesis
    proof (cases "ss ! Suc i = 0")
      case True
      have "closed_clusters \<bar>ss ! cur_indx s\<bar> (map abs (drop (Suc i) ss)) = 1"
        using False True unfolding drp by simp
      then show ?thesis unfolding unfold using True by (simp add: s1_def)
    next
      case nz: False
      have p1: "cur_indx s1 < p" using i by (simp add: s1_def)
      have p2: "pointer s1 + 1 = length (cur_indx_array s1)"
        using Suc.prems(3) by (simp add: s1_def)
      from Suc.hyps(1) [OF n i p1 p2] obtain s' where
        r: "cluster_loop p ss soln indices [Suc i..<p - 1] s1 = Inr s'"
        "length (signs_cluster s') = length (signs_cluster s1)
          + closed_clusters \<bar>ss ! cur_indx s1\<bar> (map abs (drop (Suc (Suc i)) ss))"
        by blast
      have "closed_clusters \<bar>ss ! cur_indx s\<bar> (map abs (drop (Suc i) ss))
            = 1 + closed_clusters \<bar>ss ! Suc i\<bar> (map abs (drop (Suc (Suc i)) ss))"
        using False nz unfolding drp by simp
      then show ?thesis unfolding unfold using r nz by (simp add: s1_def)
    qed
  qed
qed

lemma closed_clusters_card:
  assumes "sorted_wrt (\<ge>) (c # xs)" "\<forall>x\<in>set (c # xs). 0 \<le> x" "0 \<in> set (c # xs)"
  shows "closed_clusters c xs = card (set (c # xs) - {0})"
  using assms
proof (induction xs arbitrary: c)
  case Nil
  then show ?case by simp
next
  case (Cons x xs)
  have xc: "x \<le> c" using Cons.prems(1) by simp
  have below: "\<forall>y\<in>set xs. y \<le> x" using Cons.prems(1) by simp
  have sx: "sorted_wrt (\<ge>) (x # xs)" using Cons.prems(1) by simp
  have nx: "\<forall>y\<in>set (x # xs). 0 \<le> y" using Cons.prems(2) by simp
  show ?case
  proof (cases "x = c")
    case True
    have "0 \<in> set (c # xs)" using Cons.prems(3) True by auto
    moreover have "sorted_wrt (\<ge>) (c # xs)" using sx True by simp
    moreover have "\<forall>y\<in>set (c # xs). 0 \<le> y" using nx True by simp
    ultimately have "closed_clusters c xs = card (set (c # xs) - {0})"
      by (intro Cons.IH)
    moreover have "set (c # x # xs) = set (c # xs)" using True by auto
    ultimately show ?thesis using True by simp
  next
    case False
    then have lt: "x < c" using xc by simp
    have cpos: "0 < c" using lt nx by (auto intro: le_less_trans)
    have cnot: "c \<notin> set (x # xs) - {0}" using lt below by auto
    have ins: "set (c # x # xs) - {0} = insert c (set (x # xs) - {0})"
      using cpos by auto
    show ?thesis
    proof (cases "x = 0")
      case True
      have "\<forall>y\<in>set xs. y = 0" using below nx True by (auto intro: antisym)
      then have e: "set (x # xs) - {0} = {}" using True by auto
      have "set (c # x # xs) - {0} = {c}" unfolding ins e by simp
      then have "card (set (c # x # xs) - {0}) = 1" by simp
      moreover have "closed_clusters c (x # xs) = 1" using False True by simp
      ultimately show ?thesis by simp
    next
      case nz: False
      have "0 \<in> set (x # xs)" using Cons.prems(3) cpos by auto
      then have ih: "closed_clusters x xs = card (set (x # xs) - {0})"
        using sx nx by (intro Cons.IH)
      have "card (set (c # x # xs) - {0}) = Suc (card (set (x # xs) - {0}))"
        unfolding ins using cnot by (subst card_insert_disjoint) simp_all
      moreover have "closed_clusters c (x # xs) = Suc (closed_clusters x xs)"
        using False nz by simp
      ultimately show ?thesis using ih by simp
    qed
  qed
qed

lemma masked_filter:
  "map fst (filter snd (zip xs (map P xs))) = filter P xs"
  by (induction xs) auto

lemma slope_scalings_length:
  assumes "slope_scalings soln (map (\<lambda>s. s \<noteq> 0) (map sgn soln)) = Inr ost"
  shows "length ost = card (abs ` set soln - {0})"
proof -
  have m: "map (\<lambda>s. s \<noteq> 0) (map sgn soln) = map (\<lambda>x. x \<noteq> 0) soln"
    by (simp add: sgn_zero_iff)
  from assms have "ost = rev (sort (np_unique (map abs (filter (\<lambda>x. x \<noteq> 0) soln))))"
    unfolding slope_scalings_def m
    by (auto simp: mask_get_def bindE_simps masked_filter)
  then have "length ost = card (set (map abs (filter (\<lambda>x. x \<noteq> 0) soln)))"
    by (simp add: np_unique_def length_remdups_card_conv)
  also have "set (map abs (filter (\<lambda>x. x \<noteq> 0) soln)) = abs ` set soln - {0}"
    by auto
  finally show ?thesis .
qed

lemma slope_scalings_ok:
  "\<exists>ost. slope_scalings soln (map (\<lambda>s. s \<noteq> 0) (map sgn soln)) = Inr ost"
  by (simp add: slope_scalings_def mask_get_def bindE_simps)

lemma argsort_facts:
  assumes "is_argsort keys indices"
  shows "length indices = length keys" "set indices = {0..<length keys}"
    "list_all (\<lambda>i. i < length keys) indices"
proof -
  from assms have m: "mset indices = mset [0..<length keys]" by (simp add: is_argsort_def)
  from m show "length indices = length keys" using mset_eq_length by fastforce
  from m show s: "set indices = {0..<length keys}" using mset_eq_setD by fastforce
  from s show "list_all (\<lambda>i. i < length keys) indices" by (auto simp: list_all_iff)
qed

lemma slope_clusters_count:
  assumes arg: "is_argsort (map (\<lambda>x. - \<bar>x\<bar>) soln) indices"
    and zero: "0 \<in> set soln"
  shows "\<exists>loop. slope_clusters (length soln) (map (\<lambda>i. soln ! i) indices) soln indices = Inr loop
          \<and> length (signs_cluster loop) = card (abs ` set soln - {0})"
proof -
  define p where "p = length soln"
  define ss where "ss = map (\<lambda>i. soln ! i) indices"
  define a where "a = map abs ss"
  note af = argsort_facts [OF arg, simplified]
  have len: "length indices = p" using af(1) by (simp add: p_def)
  have rng: "list_all (\<lambda>i. i < length soln) indices" using af(3) by simp
  have ls: "length ss = p" using len by (simp add: ss_def)
  have ppos: "0 < p" using zero by (cases soln) (auto simp: p_def)
  have set_ss: "set ss = set soln"
  proof -
    have "set ss = (\<lambda>i. soln ! i) ` {0..<length soln}" using af(2) by (simp add: ss_def)
    also have "\<dots> = set soln" by (auto simp: set_conv_nth)
    finally show ?thesis .
  qed
  have "sorted (map (\<lambda>i. map (\<lambda>x. - \<bar>x\<bar>) soln ! i) indices)"
    using arg by (simp add: is_argsort_def)
  moreover have "map (\<lambda>i. map (\<lambda>x. - \<bar>x\<bar>) soln ! i) indices = map uminus a"
    using rng by (auto simp: a_def ss_def list_all_iff)
  ultimately have "sorted (map uminus a)" by simp
  then have desc: "sorted_wrt (\<ge>) a" by (simp add: sorted_wrt_map)
  have la: "length a = p" using ls by (simp add: a_def)
  then have a_eq: "a = a ! 0 # drop (Suc 0) a" using ppos by (cases a) auto
  have "sorted_wrt (\<ge>) (a ! 0 # drop (Suc 0) a)" using desc a_eq by simp
  moreover have "\<forall>x\<in>set (a ! 0 # drop (Suc 0) a). 0 \<le> x"
    using a_eq by (metis a_def abs_ge_zero imageE list.set_map)
  moreover have "0 \<in> set (a ! 0 # drop (Suc 0) a)"
  proof -
    have "0 \<in> set a" using zero set_ss by (force simp: a_def)
    then show ?thesis using a_eq by simp
  qed
  ultimately have cc: "closed_clusters (a ! 0) (drop (Suc 0) a)
                         = card (set (a ! 0 # drop (Suc 0) a) - {0})"
    by (rule closed_clusters_card)
  have seta: "set (a ! 0 # drop (Suc 0) a) = abs ` set soln"
    using a_eq set_ss by (metis a_def list.set_map)
  define s0 where "s0 = \<lparr>cur_indx_array = [0::nat], cur_indx = 0, pointer = 0,
                          signs_cluster = ([]::vec list)\<rparr>"
  have "\<exists>s'. cluster_loop p ss soln indices [0..<p - 1] s0 = Inr s'
        \<and> length (signs_cluster s')
            = length (signs_cluster s0)
              + closed_clusters \<bar>ss ! cur_indx s0\<bar> (map abs (drop (Suc 0) ss))"
    using ppos by (intro cluster_loop_count [OF ls len rng]) (simp_all add: s0_def)
  then obtain s' where
    r: "cluster_loop p ss soln indices [0..<p - 1] s0 = Inr s'"
    and n: "length (signs_cluster s') = closed_clusters \<bar>ss ! 0\<bar> (map abs (drop (Suc 0) ss))"
    by (auto simp: s0_def)
  have "\<bar>ss ! 0\<bar> = a ! 0" using ppos ls by (simp add: a_def)
  moreover have "map abs (drop (Suc 0) ss) = drop (Suc 0) a" by (simp add: a_def drop_map)
  ultimately have "length (signs_cluster s') = card (abs ` set soln - {0})"
    using n cc seta by simp
  then show ?thesis
    using r unfolding slope_clusters_def p_def [symmetric] ss_def [symmetric] s0_def by blast
qed

subsection \<open>SLOPE: the fitted object\<close>

lemma slope_build_facts:
  assumes "slope_build argsort oracle self omega = Inr r"
  shows "\<exists>subgrad ss ost loop L cp cc ll.
           take_idx (slope_fitted.initial_soln r)
               (argsort (map (\<lambda>x. - \<bar>x\<bar>) (slope_fitted.initial_soln r))) = Inr ss
         \<and> slope_scalings (slope_fitted.initial_soln r)
               (map (\<lambda>s. s \<noteq> 0) (map sgn (slope_fitted.initial_soln r))) = Inr ost
         \<and> slope_clusters (randomized_slope.nfeature self) ss (slope_fitted.initial_soln r)
               (argsort (map (\<lambda>x. - \<bar>x\<bar>) (slope_fitted.initial_soln r))) = Inr loop
         \<and> slope_opt_linear (data_X self)
               (argsort (map (\<lambda>x. - \<bar>x\<bar>) (slope_fitted.initial_soln r)))
               (signs_cluster loop) = Inr L
         \<and> cond_gaussian L (snd (cov_prec (randomized_slope.randomizer_scale self)))
               = Inr (cp, cc, ll)
         \<and> slope_fitted.observed_opt_state r = ost
         \<and> slope_fitted.num_opt_var r = length ost
         \<and> slope_fitted.opt_transform r = (L, subgrad)
         \<and> log_density (slope_fitted.sampler r) = (ll, subgrad, cp)"
  using assms
  by (clarsimp simp: slope_build_def Let_def bindE_eq_Inr split: prod.splits)

lemma slope_build_soln:
  assumes "slope_build argsort oracle self omega = Inr r"
  shows "slope_fitted.initial_soln r = solve oracle (ridge_term self) (map uminus omega)"
  using assms
  by (clarsimp simp: slope_build_def Let_def bindE_eq_Inr split: prod.splits)

lemma slope_fit_facts:
  assumes "slope_fit argsort oracle self draw perturb = (self', res)"
  shows "\<exists>omega. self' = self\<lparr>randomized_slope.initial_omega := Some omega\<rparr>
           \<and> slope_build argsort oracle self' omega = res"
  using assms unfolding slope_fit_def Let_def by auto

lemma dot_mm_shape:
  "dot_mm A B = Inr C \<Longrightarrow> nrows C = nrows A \<and> ncols C = ncols B"
  by (auto simp: dot_mm_def split: if_splits)

lemma slope_opt_linear_shape:
  assumes "slope_opt_linear Xm indices cl = Inr L"
  shows "cl \<noteq> [] \<and> ncols L = length cl \<and> nrows L = ncols Xm"
proof -
  from assms obtain Xs where xs: "cols_idx Xm indices = Inr Xs"
    and rest: "(if cl = [] then (if ncols Xs \<noteq> 0 then Inl ValueError else Inl LinAlgError)
       else (let S = transpose_m (Mat (length cl) (length (hd cl)) cl) in
        bindE (dot_mm Xs S) (\<lambda>X_clustered.
        bindE (dot_mm (transpose_m Xm) X_clustered) (\<lambda>m.
        Inr (neg_m m))))) = Inr L"
    unfolding slope_opt_linear_def bindE_eq_Inr by blast
  from rest have ne: "cl \<noteq> []" by (auto split: if_splits)
  with rest obtain Xc m where
    d1: "dot_mm Xs (transpose_m (Mat (length cl) (length (hd cl)) cl)) = Inr Xc"
    and d2: "dot_mm (transpose_m Xm) Xc = Inr m" and L: "L = neg_m m"
    by (auto simp: Let_def bindE_eq_Inr)
  from dot_mm_shape [OF d1] have "ncols Xc = length cl" by (simp add: transpose_m_def)
  with dot_mm_shape [OF d2] L ne show ?thesis by (simp add: neg_m_def transpose_m_def)
qed

lemma cond_gaussian_shape:
  assumes "cond_gaussian L prec = Inr (cp, cc, ll)"
  shows "nrows cp = ncols L \<and> ncols cp = ncols L"
proof -
  from assms obtain g where g: "dot_mm (transpose_m L) L = Inr g" and cp: "cp = scale_m g prec"
    by (auto simp: cond_gaussian_def Let_def bindE_eq_Inr)
  from dot_mm_shape [OF g] cp show ?thesis by (simp add: scale_m_def transpose_m_def)
qed

lemma take_idx_Inr: "take_idx a idx = Inr v \<Longrightarrow> v = map (\<lambda>i. a ! i) idx"
  by (auto simp: take_idx_def split: if_splits)

text \<open>
  Claim C9. For every SLOPE fit whose solution has a zero coordinate, the clustering
  loop returns and emits exactly one sign vector per distinct non-zero magnitude of the
  solution; that number is the length of \<open>observed_opt_state\<close>, which is \<open>num_opt_var\<close>, so
  \<open>opt_linear\<close> has \<open>num_opt_var\<close> columns and \<open>cond_precision\<close> (the third value bound in
  the log-density) is \<open>num_opt_var\<close> by \<open>num_opt_var\<close>. The zero coordinate is what closes
  the last cluster: \<open>slope_no_zero_shape_mismatch_example\<close> below has three magnitudes
  and two sign vectors.
\<close>

theorem slope_one_column_per_nonzero_magnitude:
  assumes fit: "slope_fit argsort oracle self draw perturb = (self', Inr r)"
    and arg: "is_argsort (map (\<lambda>x. - \<bar>x\<bar>) (slope_fitted.initial_soln r))
                (argsort (map (\<lambda>x. - \<bar>x\<bar>) (slope_fitted.initial_soln r)))"
    and p: "randomized_slope.nfeature self = length (slope_fitted.initial_soln r)"
    and zero: "0 \<in> set (slope_fitted.initial_soln r)"
  shows "\<exists>ss loop.
           slope_clusters (randomized_slope.nfeature self) ss (slope_fitted.initial_soln r)
             (argsort (map (\<lambda>x. - \<bar>x\<bar>) (slope_fitted.initial_soln r))) = Inr loop
         \<and> length (signs_cluster loop) = card (abs ` set (slope_fitted.initial_soln r) - {0})
         \<and> length (slope_fitted.observed_opt_state r)
             = card (abs ` set (slope_fitted.initial_soln r) - {0})
         \<and> slope_fitted.num_opt_var r = length (slope_fitted.observed_opt_state r)
         \<and> ncols (fst (slope_fitted.opt_transform r)) = slope_fitted.num_opt_var r
         \<and> nrows (snd (snd (log_density (slope_fitted.sampler r)))) = slope_fitted.num_opt_var r
         \<and> ncols (snd (snd (log_density (slope_fitted.sampler r)))) = slope_fitted.num_opt_var r"
proof -
  define soln where "soln = slope_fitted.initial_soln r"
  define indices where "indices = argsort (map (\<lambda>x. - \<bar>x\<bar>) soln)"
  from slope_fit_facts [OF fit] obtain omega where
    self': "self' = self\<lparr>randomized_slope.initial_omega := Some omega\<rparr>"
    and build: "slope_build argsort oracle self' omega = Inr r" by blast
  have p': "randomized_slope.nfeature self' = length soln" using p by (simp add: self' soln_def)
  from slope_build_facts [OF build]
  obtain subgrad ss ost loop L cp cc ll where
    ss: "take_idx soln indices = Inr ss"
    and ost: "slope_scalings soln (map (\<lambda>s. s \<noteq> 0) (map sgn soln)) = Inr ost"
    and loop: "slope_clusters (length soln) ss soln indices = Inr loop"
    and L: "slope_opt_linear (data_X self') indices (signs_cluster loop) = Inr L"
    and cg: "cond_gaussian L (snd (cov_prec (randomized_slope.randomizer_scale self')))
               = Inr (cp, cc, ll)"
    and r_ost: "slope_fitted.observed_opt_state r = ost"
    and r_k: "slope_fitted.num_opt_var r = length ost"
    and r_tr: "slope_fitted.opt_transform r = (L, subgrad)"
    and r_ld: "log_density (slope_fitted.sampler r) = (ll, subgrad, cp)"
    unfolding soln_def [symmetric] indices_def [symmetric] p'
    by blast
  have ss_eq: "ss = map (\<lambda>i. soln ! i) indices" using ss by (rule take_idx_Inr)
  from slope_clusters_count [OF arg [folded soln_def, folded indices_def] zero [folded soln_def]]
  obtain loop' where
    "slope_clusters (length soln) (map (\<lambda>i. soln ! i) indices) soln indices = Inr loop'"
    and cnt': "length (signs_cluster loop') = card (abs ` set soln - {0})" by blast
  with loop ss_eq have cnt: "length (signs_cluster loop) = card (abs ` set soln - {0})" by simp
  have lost: "length ost = card (abs ` set soln - {0})" using ost by (rule slope_scalings_length)
  have cols: "ncols L = length (signs_cluster loop)" using slope_opt_linear_shape [OF L] by simp
  note sh = cond_gaussian_shape [OF cg]
  show ?thesis
    unfolding soln_def [symmetric] indices_def [symmetric] p [folded soln_def]
    using loop cnt lost cols sh by (intro exI [of _ ss] exI [of _ loop]) (simp add: r_ost r_k r_tr r_ld)
qed

subsection \<open>SLOPE: the sorted solution 3, 3, 2, 0\<close>

lemmas slope_eval = slope_fit_def slope_build_def slope_subgrad_def slope_scalings_def
  slope_score_def slope_clusters_def close_cluster_def slope_opt_linear_def cond_gaussian_def
  slope_cond_mean_def stable_argsort_def

lemma example_argsort:
  "stable_argsort (map (\<lambda>x. - \<bar>x\<bar>) [2, 3, 0, 3]) = [1, 3, 0, 2]"
  by (simp add: stable_argsort_def upt_conv_Cons)

lemma example_clusters:
  "slope_clusters 4 [3, 3, 2, 0] [2, 3, 0, 3] [1, 3, 0, 2]
     = Inr \<lparr>cur_indx_array = [0, 2, 3], cur_indx = 3, pointer = 2,
            signs_cluster = [[1, 1, 0, 0], [0, 0, 1, 0]]\<rparr>"
  by (simp add: slope_clusters_def close_cluster_def np_eval)

lemma example_slope_fit:
  "slope_fit stable_argsort example_oracle example_slope [0, 0, 0, 0] None
     = (example_slope\<lparr>randomized_slope.initial_omega := Some [0, 0, 0, 0]\<rparr>,
        Inr example_slope_fitted)"
  by (simp add: slope_eval example_oracle_def example_slope_def example_slope_fitted_def np_eval)

lemma set_sorted_view:
  assumes "mset indices = mset [0..<length soln]"
  shows "set (map (\<lambda>i. soln ! i) indices) = set soln"
proof -
  from assms have "set indices = {0..<length soln}" using mset_eq_setD by fastforce
  then have "set (map (\<lambda>i. soln ! i) indices) = (\<lambda>i. soln ! i) ` {0..<length soln}" by simp
  also have "\<dots> = set soln" by (auto simp: set_conv_nth)
  finally show ?thesis .
qed

lemma close_cluster_sorted:
  assumes ss: "take_idx soln indices = Inr ss"
  shows "close_cluster p soln indices j s =
     bindE (item (cur_indx_array s @ [Suc j]) (pointer s)) (\<lambda>c.
       if list_all (\<lambda>i. i < length ss) (map (\<lambda>t. t + c) [0..<Suc j - c])
       then bindE (put_idx (replicate p 0) (map (\<lambda>t. t + c) [0..<Suc j - c])
                     (map (\<lambda>i. sgn (ss ! i)) (map (\<lambda>t. t + c) [0..<Suc j - c]))) (\<lambda>sign_vec.
            Inr \<lparr>cur_indx_array = cur_indx_array s @ [Suc j], cur_indx = Suc j,
                  pointer = Suc (pointer s), signs_cluster = signs_cluster s @ [sign_vec]\<rparr>)
       else Inl IndexError)"
proof -
  from ss have rng: "list_all (\<lambda>i. i < length soln) indices"
    and ss_eq: "ss = map (\<lambda>i. soln ! i) indices"
    by (auto simp: take_idx_def split: if_splits)
  have inner: "bindE (take_idx indices pos) (\<lambda>src.
           bindE (take_idx soln src) (\<lambda>vals.
           bindE (put_idx (replicate p 0) pos (map sgn vals)) k))
       = (if list_all (\<lambda>i. i < length ss) pos
          then bindE (put_idx (replicate p 0) pos (map (\<lambda>i. sgn (ss ! i)) pos)) k
          else Inl IndexError)" for pos k
  proof (cases "list_all (\<lambda>i. i < length ss) pos")
    case True
    then have inr: "list_all (\<lambda>i. i < length indices) pos" by (simp add: ss_eq)
    then have t1: "take_idx indices pos = Inr (map (\<lambda>i. indices ! i) pos)"
      by (rule take_idx_ok)
    have "list_all (\<lambda>i. i < length soln) (map (\<lambda>i. indices ! i) pos)"
      using inr rng by (auto simp: list_all_iff)
    then have t2: "take_idx soln (map (\<lambda>i. indices ! i) pos)
                     = Inr (map (\<lambda>i. soln ! i) (map (\<lambda>i. indices ! i) pos))"
      by (rule take_idx_ok)
    have v: "map sgn (map (\<lambda>i. soln ! i) (map (\<lambda>i. indices ! i) pos))
               = map (\<lambda>i. sgn (ss ! i)) pos"
      using inr by (auto simp: ss_eq list_all_iff)
    show ?thesis unfolding t1 bindE_simps t2 v using True by simp
  next
    case False
    then have "take_idx indices pos = Inl IndexError" by (simp add: take_idx_def ss_eq)
    then show ?thesis using False by (simp add: bindE_simps)
  qed
  show ?thesis
    unfolding close_cluster_def Let_def Suc_eq_plus1 [symmetric] inner ..
qed

lemma slope_scalings_sorted_view:
  assumes "mset indices = mset [0..<length soln]"
  shows "slope_scalings soln (map (\<lambda>s. s \<noteq> 0) (map sgn soln))
           = Inr (rev (sort (sorted_list_of_set
                   (abs ` set (map (\<lambda>i. soln ! i) indices) - {0}))))"
proof -
  have m: "map (\<lambda>s. s \<noteq> 0) (map sgn soln) = map (\<lambda>x. x \<noteq> 0) soln"
    by (simp add: sgn_zero_iff)
  have "set (map abs (filter (\<lambda>x. x \<noteq> 0) soln)) = abs ` set soln - {0}" by auto
  then have "np_unique (map abs (filter (\<lambda>x. x \<noteq> 0) soln))
               = sorted_list_of_set (abs ` set soln - {0})"
    unfolding np_unique_def by (metis sorted_list_of_set_sort_remdups)
  then show ?thesis
    unfolding slope_scalings_def m set_sorted_view [OF assms]
    by (simp add: mask_get_def bindE_simps masked_filter)
qed

text \<open>
  Claim C2. If the fitted SLOPE solution, sorted by descending magnitude, is
  \<open>[3, 3, 2, 0]\<close>, the clustering loop closes exactly two clusters, the sorted positions
  0 and 1 (the two coordinates of magnitude 3) and the sorted position 2 (the coordinate
  of magnitude 2), and stops at position 3, where the magnitude is zero; \<open>fit\<close> sets
  \<open>observed_opt_state = [3, 2]\<close> and \<open>num_opt_var = 2\<close>.
\<close>

theorem slope_clusters_of_3_3_2_0:
  assumes fit: "slope_fit argsort oracle self draw perturb = (self', Inr r)"
    and arg: "is_argsort (map (\<lambda>x. - \<bar>x\<bar>) (slope_fitted.initial_soln r))
                (argsort (map (\<lambda>x. - \<bar>x\<bar>) (slope_fitted.initial_soln r)))"
    and p: "randomized_slope.nfeature self = length (slope_fitted.initial_soln r)"
    and srt: "map (\<lambda>i. slope_fitted.initial_soln r ! i)
                (argsort (map (\<lambda>x. - \<bar>x\<bar>) (slope_fitted.initial_soln r))) = [3, 3, 2, 0]"
  shows "slope_clusters (randomized_slope.nfeature self) [3, 3, 2, 0] (slope_fitted.initial_soln r)
           (argsort (map (\<lambda>x. - \<bar>x\<bar>) (slope_fitted.initial_soln r)))
         = Inr \<lparr>cur_indx_array = [0, 2, 3], cur_indx = 3, pointer = 2,
                signs_cluster = [[1, 1, 0, 0], [0, 0, 1, 0]]\<rparr>
       \<and> slope_fitted.observed_opt_state r = [3, 2]
       \<and> slope_fitted.num_opt_var r = 2"
proof -
  define soln where "soln = slope_fitted.initial_soln r"
  define indices where "indices = argsort (map (\<lambda>x. - \<bar>x\<bar>) soln)"
  have srt': "map (\<lambda>i. soln ! i) indices = [3, 3, 2, 0]"
    using srt by (simp add: soln_def indices_def)
  note af = argsort_facts [OF arg [folded soln_def, folded indices_def], simplified]
  have perm: "mset indices = mset [0..<length soln]"
    using arg by (simp add: is_argsort_def soln_def indices_def)
  have "length (map (\<lambda>i. soln ! i) indices) = 4" unfolding srt' by simp
  then have len4: "length soln = 4" using af(1) by simp
  have ss: "take_idx soln indices = Inr [3, 3, 2, 0]"
    using af(3) srt' by (simp add: take_idx_ok)
  have loop: "slope_clusters 4 [3, 3, 2, 0] soln indices
         = Inr \<lparr>cur_indx_array = [0, 2, 3], cur_indx = 3, pointer = 2,
                signs_cluster = [[1, 1, 0, 0], [0, 0, 1, 0]]\<rparr>"
    by (simp add: slope_clusters_def close_cluster_sorted [OF ss] np_eval)
  have "abs ` set [3, 3, 2, 0 :: real] - {0} = {2, 3}" by auto
  then have sc: "slope_scalings soln (map (\<lambda>s. s \<noteq> 0) (map sgn soln)) = Inr [3, 2]"
    unfolding slope_scalings_sorted_view [OF perm] srt' by simp
  from slope_fit_facts [OF fit] obtain omega where
    build: "slope_build argsort oracle self' omega = Inr r" by blast
  from slope_build_facts [OF build] obtain ost where
    o1: "slope_scalings soln (map (\<lambda>s. s \<noteq> 0) (map sgn soln)) = Inr ost"
    and o2: "slope_fitted.observed_opt_state r = ost"
    and o3: "slope_fitted.num_opt_var r = length ost"
    unfolding soln_def [symmetric] by blast
  from o1 sc have "ost = [3, 2]" by simp
  with o2 o3 have "slope_fitted.observed_opt_state r = [3, 2]" "slope_fitted.num_opt_var r = 2"
    by simp_all
  then show ?thesis
    using loop unfolding soln_def [symmetric] indices_def [symmetric] p [folded soln_def] len4
    by simp
qed

lemma example_slope_argsort_ok:
  "is_argsort (map (\<lambda>x. - \<bar>x\<bar>) (slope_fitted.initial_soln example_slope_fitted))
     (stable_argsort (map (\<lambda>x. - \<bar>x\<bar>) (slope_fitted.initial_soln example_slope_fitted)))"
  by (simp add: example_slope_fitted_def is_argsort_def stable_argsort_def upt_conv_Cons)

lemma example_slope_sorted:
  "map (\<lambda>i. slope_fitted.initial_soln example_slope_fitted ! i)
     (stable_argsort (map (\<lambda>x. - \<bar>x\<bar>) (slope_fitted.initial_soln example_slope_fitted)))
   = [3, 3, 2, 0]"
  by (simp add: example_slope_fitted_def stable_argsort_def upt_conv_Cons)

lemma example_slope_nfeature:
  "randomized_slope.nfeature example_slope = length (slope_fitted.initial_soln example_slope_fitted)"
  by (simp add: example_slope_def example_slope_fitted_def)

lemma example_slope_has_zero: "0 \<in> set (slope_fitted.initial_soln example_slope_fitted)"
  by (simp add: example_slope_fitted_def)

theorem slope_clusters_of_3_3_2_0_witness:
  "slope_fit stable_argsort example_oracle example_slope [0, 0, 0, 0] None
     = (example_slope\<lparr>randomized_slope.initial_omega := Some [0, 0, 0, 0]\<rparr>,
        Inr example_slope_fitted)
   \<and> is_argsort (map (\<lambda>x. - \<bar>x\<bar>) (slope_fitted.initial_soln example_slope_fitted))
       (stable_argsort (map (\<lambda>x. - \<bar>x\<bar>) (slope_fitted.initial_soln example_slope_fitted)))
   \<and> randomized_slope.nfeature example_slope
       = length (slope_fitted.initial_soln example_slope_fitted)
   \<and> map (\<lambda>i. slope_fitted.initial_soln example_slope_fitted ! i)
         (stable_argsort (map (\<lambda>x. - \<bar>x\<bar>) (slope_fitted.initial_soln example_slope_fitted)))
       = [3, 3, 2, 0]
   \<and> slope_clusters (randomized_slope.nfeature example_slope) [3, 3, 2, 0]
         (slope_fitted.initial_soln example_slope_fitted)
         (stable_argsort (map (\<lambda>x. - \<bar>x\<bar>) (slope_fitted.initial_soln example_slope_fitted)))
       = Inr \<lparr>cur_indx_array = [0, 2, 3], cur_indx = 3, pointer = 2,
              signs_cluster = [[1, 1, 0, 0], [0, 0, 1, 0]]\<rparr>
   \<and> slope_fitted.observed_opt_state example_slope_fitted = [3, 2]
   \<and> slope_fitted.num_opt_var example_slope_fitted = 2"
  using slope_clusters_of_3_3_2_0 [OF example_slope_fit example_slope_argsort_ok
      example_slope_nfeature example_slope_sorted]
    example_slope_fit example_slope_argsort_ok example_slope_nfeature example_slope_sorted
  by blast

text \<open>The witness of claim C9, and the shapes without a zero coordinate.\<close>

theorem slope_one_column_per_nonzero_magnitude_witness:
  "slope_fit stable_argsort example_oracle example_slope [0, 0, 0, 0] None
     = (example_slope\<lparr>randomized_slope.initial_omega := Some [0, 0, 0, 0]\<rparr>,
        Inr example_slope_fitted)
   \<and> is_argsort (map (\<lambda>x. - \<bar>x\<bar>) (slope_fitted.initial_soln example_slope_fitted))
       (stable_argsort (map (\<lambda>x. - \<bar>x\<bar>) (slope_fitted.initial_soln example_slope_fitted)))
   \<and> randomized_slope.nfeature example_slope
       = length (slope_fitted.initial_soln example_slope_fitted)
   \<and> 0 \<in> set (slope_fitted.initial_soln example_slope_fitted)
   \<and> (\<exists>ss loop.
           slope_clusters (randomized_slope.nfeature example_slope) ss
             (slope_fitted.initial_soln example_slope_fitted)
             (stable_argsort (map (\<lambda>x. - \<bar>x\<bar>) (slope_fitted.initial_soln example_slope_fitted)))
             = Inr loop
         \<and> length (signs_cluster loop)
             = card (abs ` set (slope_fitted.initial_soln example_slope_fitted) - {0})
         \<and> length (slope_fitted.observed_opt_state example_slope_fitted)
             = card (abs ` set (slope_fitted.initial_soln example_slope_fitted) - {0})
         \<and> slope_fitted.num_opt_var example_slope_fitted
             = length (slope_fitted.observed_opt_state example_slope_fitted)
         \<and> ncols (fst (slope_fitted.opt_transform example_slope_fitted))
             = slope_fitted.num_opt_var example_slope_fitted
         \<and> nrows (snd (snd (log_density (slope_fitted.sampler example_slope_fitted))))
             = slope_fitted.num_opt_var example_slope_fitted
         \<and> ncols (snd (snd (log_density (slope_fitted.sampler example_slope_fitted))))
             = slope_fitted.num_opt_var example_slope_fitted)"
  using slope_one_column_per_nonzero_magnitude [OF example_slope_fit example_slope_argsort_ok
      example_slope_nfeature example_slope_has_zero]
    example_slope_fit example_slope_argsort_ok example_slope_nfeature example_slope_has_zero
  by blast

lemma slope_no_zero_shape_mismatch_example:
  "slope_clusters 4 [3, 3, 2, 1] [2, 3, 1, 3] [1, 3, 0, 2]
     = Inr \<lparr>cur_indx_array = [0, 2, 3], cur_indx = 3, pointer = 2,
            signs_cluster = [[1, 1, 0, 0], [0, 0, 1, 0]]\<rparr>
   \<and> slope_scalings [2, 3, 1, 3] (map (\<lambda>s. s \<noteq> 0) (map sgn [2, 3, 1, 3 :: real])) = Inr [3, 2, 1]"
  by (simp add: slope_clusters_def close_cluster_def slope_scalings_def np_eval)

text \<open>
  Claim C7. Once \<open>fit\<close> has run on a builder, marginal screening or SLOPE, a
  perturbation is stored on it, and a second call with \<open>perturb=None\<close> leaves the object
  as it is and returns the same result whatever the randomizer would draw: the same active
  set, signs, observed optimization state and conditional Gaussian. The solver and the
  loss are functions of their arguments.
\<close>

theorem refit_reuses_stored_perturbation:
  "(screening_fit self draw perturb = (self1, res)
      \<longrightarrow> marginal_screening.initial_omega self1 \<noteq> None
        \<and> screening_fit self1 draw' None = (self1, res))
   \<and> (slope_fit argsort oracle slope edraw eperturb = (slope1, eres)
      \<longrightarrow> randomized_slope.initial_omega slope1 \<noteq> None
        \<and> slope_fit argsort oracle slope1 edraw' None = (slope1, eres))"
  by (auto simp: screening_fit_def slope_fit_def Let_def)

theorem refit_reuses_stored_perturbation_witness:
  "screening_fit example_screening [0, 0] None
     = (example_screening\<lparr>marginal_screening.initial_omega := Some [0, 0]\<rparr>,
        Inr example_screening_fitted)
   \<and> marginal_screening.initial_omega
        (example_screening\<lparr>marginal_screening.initial_omega := Some [0, 0]\<rparr>) \<noteq> None
   \<and> screening_fit (example_screening\<lparr>marginal_screening.initial_omega := Some [0, 0]\<rparr>)
         [5, 7] None
       = (example_screening\<lparr>marginal_screening.initial_omega := Some [0, 0]\<rparr>,
          Inr example_screening_fitted)
   \<and> slope_fit stable_argsort example_oracle example_slope [0, 0, 0, 0] None
       = (example_slope\<lparr>randomized_slope.initial_omega := Some [0, 0, 0, 0]\<rparr>,
          Inr example_slope_fitted)
   \<and> randomized_slope.initial_omega
        (example_slope\<lparr>randomized_slope.initial_omega := Some [0, 0, 0, 0]\<rparr>) \<noteq> None
   \<and> slope_fit stable_argsort example_oracle
         (example_slope\<lparr>randomized_slope.initial_omega := Some [0, 0, 0, 0]\<rparr>)
         [1, 2, 3, 4] None
       = (example_slope\<lparr>randomized_slope.initial_omega := Some [0, 0, 0, 0]\<rparr>,
          Inr example_slope_fitted)"
  using refit_reuses_stored_perturbation [of example_screening "[0, 0]" None
      "example_screening\<lparr>marginal_screening.initial_omega := Some [0, 0]\<rparr>"
      "Inr example_screening_fitted" "[5, 7]" stable_argsort example_oracle example_slope
      "[0, 0, 0, 0]" None "example_slope\<lparr>randomized_slope.initial_omega := Some [0, 0, 0, 0]\<rparr>"
      "Inr example_slope_fitted" "[1, 2, 3, 4]"]
    example_screening_fit example_slope_fit
  by blast

subsection \<open>The empty active set\<close>

lemma cluster_loop_all_zero:
  assumes "\<forall>x\<in>set ss. x = 0"
  shows "cluster_loop p ss soln indices js s = Inr s' \<Longrightarrow> signs_cluster s' = signs_cluster s"
proof (induction js arbitrary: s)
  case Nil
  then show ?case by simp
next
  case (Cons j js)
  from Cons.prems obtain nxt cur where
    n: "item ss (j + 1) = Inr nxt" and c: "item ss (cur_indx s) = Inr cur"
    by (auto simp: bindE_eq_Inr)
  from n assms have "nxt = 0" by (auto simp: item_def split: if_splits)
  moreover from c assms have "cur = 0" by (auto simp: item_def split: if_splits)
  ultimately have "cluster_loop p ss soln indices js s = Inr s'"
    using Cons.prems n c by (simp add: bindE_simps)
  then show ?case by (rule Cons.IH)
qed

lemma slope_build_all_zero_fails:
  assumes zero: "list_all (\<lambda>x. x = 0) (solve oracle (ridge_term self) (map uminus omega))"
  shows "\<exists>e. slope_build argsort oracle self omega = Inl e"
proof (cases "slope_build argsort oracle self omega")
  case (Inl e)
  then show ?thesis by blast
next
  case (Inr r)
  define soln where "soln = slope_fitted.initial_soln r"
  have soln: "soln = solve oracle (ridge_term self) (map uminus omega)"
    unfolding soln_def using Inr by (rule slope_build_soln)
  from slope_build_facts [OF Inr] obtain ss loop L where
    ss: "take_idx soln (argsort (map (\<lambda>x. - \<bar>x\<bar>) soln)) = Inr ss"
    and loop: "slope_clusters (randomized_slope.nfeature self) ss soln
                 (argsort (map (\<lambda>x. - \<bar>x\<bar>) soln)) = Inr loop"
    and L: "slope_opt_linear (data_X self) (argsort (map (\<lambda>x. - \<bar>x\<bar>) soln))
              (signs_cluster loop) = Inr L"
    unfolding soln_def [symmetric] by blast
  from zero have z: "\<forall>x\<in>set soln. x = 0" by (simp add: soln list_all_iff)
  from ss have "\<forall>x\<in>set ss. x = 0"
    using z by (auto simp: take_idx_def list_all_iff split: if_splits)
  from cluster_loop_all_zero [OF this loop [unfolded slope_clusters_def]]
  have "signs_cluster loop = []" by simp
  with slope_opt_linear_shape [OF L] show ?thesis by simp
qed

lemma filter_mask_all_false: "filter snd (zip a (replicate n False)) = []"
  by (auto simp: filter_empty_conv dest: set_zip_rightD)

lemma filter_mask_all_true:
  "length a = n \<Longrightarrow> map fst (filter snd (zip a (replicate n True))) = a"
proof -
  assume l: "length a = n"
  have "filter snd (zip a (replicate n True)) = zip a (replicate n True)"
    by (auto simp: filter_id_conv dest: set_zip_rightD)
  then show ?thesis using l by (simp add: map_fst_zip)
qed

lemma count_true_replicate [simp]:
  "count_true (replicate n False) = 0" "count_true (replicate n True) = n"
  by (simp_all add: count_true_def)

lemma scatter_all_false: "scatter a (replicate n False) vs = a"
proof (induction a arbitrary: n)
  case Nil
  show ?case by simp
next
  case (Cons x a)
  then show ?case by (cases n) simp_all
qed

lemma scatter_all_true:
  "length a = n \<Longrightarrow> length vs = n \<Longrightarrow> scatter a (replicate n True) vs = vs"
proof (induction a arbitrary: n vs)
  case Nil
  then show ?case by simp
next
  case (Cons x a)
  then show ?case by (cases n; cases vs) simp_all
qed

lemma cond_gaussian_no_columns:
  "cond_gaussian (Mat p 0 (replicate p [])) prec = Inr (Mat 0 0 [], Mat 0 0 [], Mat 0 p [])"
  by (simp add: cond_gaussian_def transpose_m_def dot_mm_def scale_m_def np_linalg_inv_def
        bindE_simps Let_def mk_mat_def)

lemma screening_select_none_selected:
  assumes l1: "length (marginal_screening.observed_score_state self) = p"
    and l2: "length omega = p" and l3: "length (threshold self) = p"
    and none: "\<forall>i<p. \<bar>marginal_screening.observed_score_state self ! i - omega ! i\<bar>
                       \<le> threshold self ! i"
  shows "screening_select self omega
           = Inr (map2 (-) (marginal_screening.observed_score_state self) omega,
                  map uminus (map2 (-) (marginal_screening.observed_score_state self) omega),
                  replicate p 0, replicate p False, [], replicate p 0, [])"
proof -
  define rs where "rs = map2 (-) (marginal_screening.observed_score_state self) omega"
  define Z where "Z = map uminus rs"
  have lrs: "length rs = p" and lZ: "length Z = p" using l1 l2 by (simp_all add: rs_def Z_def)
  have Zi: "\<bar>Z ! i\<bar> \<le> threshold self ! i" if "i < p" for i
    using that none l1 l2 by (simp add: Z_def rs_def abs_minus_commute)
  have a: "np_bin (-) (marginal_screening.observed_score_state self) omega = Inr rs"
    using l1 l2 by (simp add: np_bin_same_length rs_def)
  have b: "np_bin (-) (map abs Z) (threshold self) = Inr (map2 (-) (map abs Z) (threshold self))"
    using lZ l3 by (simp add: np_bin_same_length)
  have c: "np_bin (*) (map sgn Z) (map2 (-) (map abs Z) (threshold self))
             = Inr (map2 (*) (map sgn Z) (map2 (-) (map abs Z) (threshold self)))"
    using lZ l3 by (simp add: np_bin_same_length)
  have d: "np_bin (\<ge>) (map abs Z) (threshold self) = Inr (map2 (\<ge>) (map abs Z) (threshold self))"
    using lZ l3 by (simp add: np_bin_same_length)
  have soft0: "map2 (\<lambda>x b. if b then x else 0)
                 (map2 (*) (map sgn Z) (map2 (-) (map abs Z) (threshold self)))
                 (map2 (\<ge>) (map abs Z) (threshold self)) = replicate p 0"
  proof -
    have "map2 (\<lambda>z t. if \<bar>z\<bar> \<ge> t then sgn z * (\<bar>z\<bar> - t) else 0) Z (threshold self)
            = replicate p 0"
    proof (rule nth_equalityI)
      show "length (map2 (\<lambda>z t. if \<bar>z\<bar> \<ge> t then sgn z * (\<bar>z\<bar> - t) else 0) Z (threshold self))
              = length (replicate p (0::real))"
        using lZ l3 by simp
    next
      fix i
      assume "i < length (map2 (\<lambda>z t. if \<bar>z\<bar> \<ge> t then sgn z * (\<bar>z\<bar> - t) else 0) Z (threshold self))"
      then have i: "i < p" using lZ l3 by simp
      then show "map2 (\<lambda>z t. if \<bar>z\<bar> \<ge> t then sgn z * (\<bar>z\<bar> - t) else 0) Z (threshold self) ! i
                   = replicate p 0 ! i"
        using Zi [OF i] lZ l3 by auto
    qed
    then show ?thesis using soft_thresh_pointwise [of "threshold self" Z] lZ l3 by simp
  qed
  have e: "np_bin (\<lambda>x b. if b then x else 0)
             (map2 (*) (map sgn Z) (map2 (-) (map abs Z) (threshold self)))
             (map2 (\<ge>) (map abs Z) (threshold self)) = Inr (replicate p 0)"
    using lZ l3 soft0 by (simp add: np_bin_same_length)
  have act: "map (\<lambda>x. x \<noteq> 0) (replicate p (0::real)) = replicate p False" by simp
  have f: "mask_get (map sgn Z) (replicate p False) = Inr []"
    using lZ by (simp add: mask_get_def filter_mask_all_false)
  have g: "mask_fill (map sgn Z) (map Not (replicate p False)) 0 = Inr (replicate p 0)"
    using lZ by (auto simp: mask_fill_def list_eq_iff_nth_eq)
  have h: "mask_get (replicate p (0::real)) (replicate p False) = Inr []"
    by (simp add: mask_get_def filter_mask_all_false)
  show ?thesis
    unfolding screening_select_def a bindE_simps Let_def Z_def [symmetric] b c d e act f g h
    by (simp add: rs_def Z_def)
qed

lemma screening_transform_none_selected:
  assumes l3: "length (threshold self) = p" and lrs: "length rs = p"
    and pf: "marginal_screening.nfeature self = p"
  shows "screening_transform self rs (replicate p False) [] 0
           = Inr (Mat p 0 (replicate p []), rs)"
proof -
  have a: "rows_mask_set (np_zeros2 p 0) (replicate p False) (np_diag [])
             = Inr (Mat p 0 (replicate p []))"
    by (simp add: rows_mask_set_def np_zeros2_def np_diag_def mk_mat_def scatter_all_false
          map_replicate_const)
  have b: "mask_get (threshold self) (replicate p False) = Inr []"
    using l3 by (simp add: mask_get_def filter_mask_all_false)
  have c: "np_bin (*) ([]::real list) ([]::real list) = Inr []" by (simp add: np_bin_def)
  have d: "mask_set (replicate p (0::real)) (replicate p False) [] = Inr (replicate p 0)"
    by (simp add: mask_set_def scatter_all_false)
  have e: "mask_get rs (map Not (replicate p False)) = Inr rs"
    using lrs by (simp add: mask_get_def filter_mask_all_true)
  have f: "mask_set (replicate p (0::real)) (map Not (replicate p False)) rs = Inr rs"
    using lrs by (simp add: mask_set_def scatter_all_true)
  show ?thesis
    unfolding screening_transform_def Let_def pf a b c d e f bindE_simps ..
qed

lemma screening_build_none_selected:
  assumes l1: "length (marginal_screening.observed_score_state self) = p"
    and l2: "length omega = p" and l3: "length (threshold self) = p"
    and pf: "marginal_screening.nfeature self = p"
    and none: "\<forall>i<p. \<bar>marginal_screening.observed_score_state self ! i - omega ! i\<bar>
                       \<le> threshold self ! i"
  shows "\<exists>r. screening_build self omega = Inr r
           \<and> screening_fitted.initial_soln r = replicate p 0
           \<and> selected r = replicate p False
           \<and> screening_fitted.observed_opt_state r = []
           \<and> screening_fitted.num_opt_var r = 0
           \<and> fst (screening_fitted.opt_transform r) = Mat p 0 (replicate p [])
           \<and> mean (affine_con (screening_fitted.sampler r)) = []
           \<and> constraints.covariance (affine_con (screening_fitted.sampler r)) = Mat 0 0 []"
proof -
  define rs where "rs = map2 (-) (marginal_screening.observed_score_state self) omega"
  have lrs: "length rs = p" using l1 l2 by (simp add: rs_def)
  note sel = screening_select_none_selected [OF l1 l2 l3 none, folded rs_def]
  note tr = screening_transform_none_selected [OF l3 lrs pf]
  have cm: "screening_cond_mean (Mat 0 p []) (marginal_screening.observed_score_state self) rs
              = Inr []"
    using l1 lrs by (simp add: screening_cond_mean_def np_bin_same_length bindE_simps dot_mv_def)
  show ?thesis
    unfolding screening_build_def sel bindE_simps prod.case Let_def
    by (simp add: tr cond_gaussian_no_columns cm bindE_simps)
qed

text \<open>
  Claim C3, as amended. On an empty active set the two builders differ, and neither
  raises a dedicated degenerate-selection error (the sources define none). The SLOPE
  \<open>fit\<close> fails whenever the solver's solution is zero in every coordinate: the loop
  closes no cluster and the numerics library refuses what follows. The marginal-screening
  \<open>fit\<close> returns normally when no perturbed statistic exceeds its threshold, with no
  selected coordinate, an empty observed optimization state, \<open>num_opt_var = 0\<close>, an
  \<open>opt_linear\<close> without columns and the 0 by 0 conditional covariance.
\<close>

theorem empty_selection_slope_fails_screening_returns:
  "(slope_fit argsort oracle slope edraw eperturb = (slope', eres)
      \<and> randomized_slope.initial_omega slope' = Some eomega
      \<and> list_all (\<lambda>x. x = 0) (solve oracle (ridge_term slope) (map uminus eomega))
    \<longrightarrow> (\<exists>e. eres = Inl e))
   \<and> (screening_fit self draw perturb = (self', res)
      \<and> marginal_screening.initial_omega self' = Some omega
      \<and> length (marginal_screening.observed_score_state self) = marginal_screening.nfeature self
      \<and> length omega = marginal_screening.nfeature self
      \<and> length (threshold self) = marginal_screening.nfeature self
      \<and> (\<forall>i<marginal_screening.nfeature self.
            \<bar>marginal_screening.observed_score_state self ! i - omega ! i\<bar> \<le> threshold self ! i)
    \<longrightarrow> (\<exists>r. res = Inr r
           \<and> screening_fitted.initial_soln r = replicate (marginal_screening.nfeature self) 0
           \<and> selected r = replicate (marginal_screening.nfeature self) False
           \<and> screening_fitted.observed_opt_state r = []
           \<and> screening_fitted.num_opt_var r = 0
           \<and> fst (screening_fitted.opt_transform r)
               = Mat (marginal_screening.nfeature self) 0
                   (replicate (marginal_screening.nfeature self) [])
           \<and> mean (affine_con (screening_fitted.sampler r)) = []
           \<and> constraints.covariance (affine_con (screening_fitted.sampler r)) = Mat 0 0 []))"
proof (intro conjI impI)
  assume h: "slope_fit argsort oracle slope edraw eperturb = (slope', eres)
      \<and> randomized_slope.initial_omega slope' = Some eomega
      \<and> list_all (\<lambda>x. x = 0) (solve oracle (ridge_term slope) (map uminus eomega))"
  then obtain om where s': "slope' = slope\<lparr>randomized_slope.initial_omega := Some om\<rparr>"
    and b: "slope_build argsort oracle slope' om = eres"
    using slope_fit_facts by blast
  from h s' have om: "om = eomega" by simp
  have "list_all (\<lambda>x. x = 0) (solve oracle (ridge_term slope') (map uminus om))"
    using h by (simp add: s' om)
  from slope_build_all_zero_fails [OF this, of argsort] b show "\<exists>e. eres = Inl e" by simp
next
  assume h: "screening_fit self draw perturb = (self', res)
      \<and> marginal_screening.initial_omega self' = Some omega
      \<and> length (marginal_screening.observed_score_state self) = marginal_screening.nfeature self
      \<and> length omega = marginal_screening.nfeature self
      \<and> length (threshold self) = marginal_screening.nfeature self
      \<and> (\<forall>i<marginal_screening.nfeature self.
            \<bar>marginal_screening.observed_score_state self ! i - omega ! i\<bar> \<le> threshold self ! i)"
  define p where "p = marginal_screening.nfeature self"
  from h obtain om where s': "self' = self\<lparr>marginal_screening.initial_omega := Some om\<rparr>"
    and b: "screening_build self' om = res"
    unfolding screening_fit_def Let_def by auto
  from h s' have om: "om = omega" by simp
  have "\<exists>r. screening_build self' omega = Inr r
           \<and> screening_fitted.initial_soln r = replicate p 0
           \<and> selected r = replicate p False
           \<and> screening_fitted.observed_opt_state r = []
           \<and> screening_fitted.num_opt_var r = 0
           \<and> fst (screening_fitted.opt_transform r) = Mat p 0 (replicate p [])
           \<and> mean (affine_con (screening_fitted.sampler r)) = []
           \<and> constraints.covariance (affine_con (screening_fitted.sampler r)) = Mat 0 0 []"
    using h by (intro screening_build_none_selected) (simp_all add: s' p_def)
  then show "\<exists>r. res = Inr r
           \<and> screening_fitted.initial_soln r = replicate (marginal_screening.nfeature self) 0
           \<and> selected r = replicate (marginal_screening.nfeature self) False
           \<and> screening_fitted.observed_opt_state r = []
           \<and> screening_fitted.num_opt_var r = 0
           \<and> fst (screening_fitted.opt_transform r)
               = Mat (marginal_screening.nfeature self) 0
                   (replicate (marginal_screening.nfeature self) [])
           \<and> mean (affine_con (screening_fitted.sampler r)) = []
           \<and> constraints.covariance (affine_con (screening_fitted.sampler r)) = Mat 0 0 []"
    using b om unfolding p_def by simp
qed

lemma example_slope_all_zero_fit:
  "slope_fit stable_argsort example_oracle_zero example_slope [0, 0, 0, 0] None
     = (example_slope\<lparr>randomized_slope.initial_omega := Some [0, 0, 0, 0]\<rparr>, Inl ValueError)"
  by (simp add: slope_eval example_oracle_zero_def example_slope_def np_eval)

theorem empty_selection_slope_fails_screening_returns_witness:
  "slope_fit stable_argsort example_oracle_zero example_slope [0, 0, 0, 0] None
     = (example_slope\<lparr>randomized_slope.initial_omega := Some [0, 0, 0, 0]\<rparr>, Inl ValueError)
   \<and> randomized_slope.initial_omega
        (example_slope\<lparr>randomized_slope.initial_omega := Some [0, 0, 0, 0]\<rparr>)
       = Some [0, 0, 0, 0]
   \<and> list_all (\<lambda>x. x = 0)
        (solve example_oracle_zero (ridge_term example_slope) (map uminus [0, 0, 0, 0]))
   \<and> (\<exists>e. (Inl ValueError :: error + slope_fitted) = Inl e)
   \<and> screening_fit example_screening_empty [0] None
       = (example_screening_empty\<lparr>marginal_screening.initial_omega := Some [0]\<rparr>,
          Inr example_screening_empty_fitted)
   \<and> marginal_screening.initial_omega
        (example_screening_empty\<lparr>marginal_screening.initial_omega := Some [0]\<rparr>) = Some [0]
   \<and> length (marginal_screening.observed_score_state example_screening_empty)
       = marginal_screening.nfeature example_screening_empty
   \<and> length [0 :: real] = marginal_screening.nfeature example_screening_empty
   \<and> length (threshold example_screening_empty)
       = marginal_screening.nfeature example_screening_empty
   \<and> marginal_screening.nfeature example_screening_empty = 1
   \<and> \<bar>marginal_screening.observed_score_state example_screening_empty ! 0 - [0] ! 0\<bar>
         \<le> threshold example_screening_empty ! 0
   \<and> (\<exists>r. (Inr example_screening_empty_fitted :: error + screening_fitted) = Inr r
           \<and> screening_fitted.initial_soln r
               = replicate (marginal_screening.nfeature example_screening_empty) 0
           \<and> selected r = replicate (marginal_screening.nfeature example_screening_empty) False
           \<and> screening_fitted.observed_opt_state r = []
           \<and> screening_fitted.num_opt_var r = 0
           \<and> fst (screening_fitted.opt_transform r)
               = Mat (marginal_screening.nfeature example_screening_empty) 0
                   (replicate (marginal_screening.nfeature example_screening_empty) [])
           \<and> mean (affine_con (screening_fitted.sampler r)) = []
           \<and> constraints.covariance (affine_con (screening_fitted.sampler r)) = Mat 0 0 [])"
proof -
  have h1: "randomized_slope.initial_omega
        (example_slope\<lparr>randomized_slope.initial_omega := Some [0, 0, 0, 0]\<rparr>)
       = Some [0, 0, 0, 0]" by simp
  have h2: "list_all (\<lambda>x. x = 0)
        (solve example_oracle_zero (ridge_term example_slope) (map uminus [0, 0, 0, 0]))"
    by (simp add: example_oracle_zero_def)
  have h3: "marginal_screening.initial_omega
        (example_screening_empty\<lparr>marginal_screening.initial_omega := Some [0]\<rparr>) = Some [0]"
    by simp
  have h4: "length (marginal_screening.observed_score_state example_screening_empty)
       = marginal_screening.nfeature example_screening_empty"
    "length [0 :: real] = marginal_screening.nfeature example_screening_empty"
    "length (threshold example_screening_empty)
       = marginal_screening.nfeature example_screening_empty"
    by (simp_all add: example_screening_empty_def)
  have h5: "\<forall>i<marginal_screening.nfeature example_screening_empty.
          \<bar>marginal_screening.observed_score_state example_screening_empty ! i - [0] ! i\<bar>
            \<le> threshold example_screening_empty ! i"
    by (simp add: example_screening_empty_def)
  note inst = empty_selection_slope_fails_screening_returns
    [of stable_argsort example_oracle_zero example_slope "[0, 0, 0, 0]" None
        "example_slope\<lparr>randomized_slope.initial_omega := Some [0, 0, 0, 0]\<rparr>"
        "Inl ValueError" "[0, 0, 0, 0]"
        example_screening_empty "[0]" None
        "example_screening_empty\<lparr>marginal_screening.initial_omega := Some [0]\<rparr>"
        "Inr example_screening_empty_fitted" "[0]"]
  have h6: "marginal_screening.nfeature example_screening_empty = 1"
    "\<bar>marginal_screening.observed_score_state example_screening_empty ! 0 - [0] ! 0\<bar>
       \<le> threshold example_screening_empty ! 0"
    by (simp_all add: example_screening_empty_def)
  from inst example_slope_all_zero_fit example_screening_empty_fit h1 h2 h3 h4 h5 h6
  show ?thesis by blast
qed

text \<open>
  The claim as first stated, with a failure in both builders, does not hold for marginal
  screening: with data 0.5, threshold 1 and perturbation 0 nothing is selected and \<open>fit\<close>
  returns.
\<close>

theorem screening_empty_selection_returns_counterexample:
  "screening_fit example_screening_empty [0] None
     = (example_screening_empty\<lparr>marginal_screening.initial_omega := Some [0]\<rparr>,
        Inr example_screening_empty_fitted)
   \<and> screening_fitted.initial_soln example_screening_empty_fitted = [0]
   \<and> selected example_screening_empty_fitted = [False]
   \<and> screening_fitted.num_opt_var example_screening_empty_fitted = 0"
  using example_screening_empty_fit by (simp add: example_screening_empty_fitted_def)

subsection \<open>The dispersion estimate with no residual degrees of freedom\<close>










subsection \<open>Simes selection is monotone in the level\<close>

lemma simes_decide_None_iff:
  "simes_decide p T pv io sp alpha = Inr None \<longleftrightarrow> \<not> sp \<le> alpha / 2"
  by (auto simp: simes_decide_def Let_def bindE_def split: sum.splits if_splits)

lemma item_0_Inr: "item xs 0 = Inr v \<longleftrightarrow> xs \<noteq> [] \<and> v = hd xs"
  by (cases xs) (auto simp: item_def)

lemma masked_sorted_head:
  assumes srt: "sorted pv" and len: "length io = length pv"
    and ne: "map fst (filter snd (zip io (map (\<lambda>q. q \<le> c) pv))) \<noteq> []"
  shows "hd (map fst (filter snd (zip io (map (\<lambda>q. q \<le> c) pv)))) = hd io \<and> pv \<noteq> [] \<and> hd pv \<le> c"
proof (cases pv)
  case Nil
  with ne show ?thesis by simp
next
  case (Cons q qs)
  with len obtain i is' where io: "io = i # is'" by (cases io) auto
  from ne obtain x where "x \<in> set (filter snd (zip io (map (\<lambda>q. q \<le> c) pv)))"
    by (cases "filter snd (zip io (map (\<lambda>q. q \<le> c) pv))") auto
  then have sx: "snd x" and "x \<in> set (zip io (map (\<lambda>q. q \<le> c) pv))" by auto
  then have "snd x \<in> set (map (\<lambda>q. q \<le> c) pv)"
    by (cases x) (auto dest: set_zip_rightD)
  with sx obtain y where y: "y \<in> set pv" "y \<le> c" by auto
  have "q \<le> y" using srt y(1) Cons by auto
  with y(2) have "q \<le> c" by simp
  then show ?thesis using Cons io by simp
qed

lemma zip_upt_enumerate:
  "zip [0..<length m] m = map (\<lambda>i. (i, m ! i)) [0..<length m]"
  by (rule nth_equalityI) simp_all

lemma masked_upt:
  "length m = p \<Longrightarrow> map fst (filter snd (zip [0..<p] m)) = filter (\<lambda>i. m ! i) [0..<p]"
  using zip_upt_enumerate [of m] by (simp add: filter_map o_def)

lemma first_true_props:
  assumes "filter P [0..<p] \<noteq> []"
  shows "P (hd (filter P [0..<p]))" "hd (filter P [0..<p]) < p"
    "\<And>j. j < p \<Longrightarrow> P j \<Longrightarrow> hd (filter P [0..<p]) \<le> j"
proof -
  let ?f = "filter P [0..<p]"
  from assms have h: "hd ?f \<in> set ?f" by (rule hd_in_set)
  then have "hd ?f \<in> {x \<in> set [0..<p]. P x}" by (simp only: set_filter)
  then show "P (hd ?f)" "hd ?f < p" by simp_all
  fix j
  assume "j < p" "P j"
  then have j: "j \<in> set ?f" by simp
  have "sorted ?f" by (simp add: sorted_wrt_filter)
  with assms j show "hd ?f \<le> j" by (cases ?f) auto
qed

lemma np_bin_le_mono:
  fixes a b1 b2 :: "real list"
  assumes r: "np_bin (\<le>) a b1 = Inr m1" and len: "length b1 = length b2"
    and le: "\<And>i. i < length b1 \<Longrightarrow> b1 ! i \<le> b2 ! i"
  shows "\<exists>m2. np_bin (\<le>) a b2 = Inr m2 \<and> length m2 = length m1
            \<and> (\<forall>i<length m1. m1 ! i \<longrightarrow> m2 ! i)"
proof -
  consider (eq) "length a = length b1"
    | (a1) "length a \<noteq> length b1" "length a = 1"
    | (b1) "length a \<noteq> length b1" "length a \<noteq> 1" "length b1 = 1"
    using r by (auto simp: np_bin_def split: if_splits)
  then show ?thesis
  proof cases
    case eq
    then have "m1 = map2 (\<le>) a b1" "np_bin (\<le>) a b2 = Inr (map2 (\<le>) a b2)"
      using r len by (simp_all add: np_bin_def)
    then show ?thesis using eq len le by (auto intro: order_trans)
  next
    case a1
    then have "m1 = map ((\<le>) (hd a)) b1" "np_bin (\<le>) a b2 = Inr (map ((\<le>) (hd a)) b2)"
      using r len by (simp_all add: np_bin_def)
    then show ?thesis using len le by (auto intro: order_trans)
  next
    case b1
    then have "m1 = map (\<lambda>x. x \<le> hd b1) a" "np_bin (\<le>) a b2 = Inr (map (\<lambda>x. x \<le> hd b2) a)"
      using r len by (simp_all add: np_bin_def)
    moreover have "hd b1 \<le> hd b2" using b1(3) len le [of 0] by (cases b1; cases b2) auto
    ultimately show ?thesis by (auto intro: order_trans)
  qed
qed

lemma take_idx_prefix:
  assumes "take_idx T (take t1 io) = Inr v" "t2 \<le> t1"
  shows "\<exists>w. take_idx T (take t2 io) = Inr w"
proof -
  from assms(1) have "list_all (\<lambda>i. i < length T) (take t1 io)"
    by (auto simp: take_idx_def split: if_splits)
  moreover have "set (take t2 io) \<subseteq> set (take t1 io)"
    using assms(2) by (rule set_take_subset_set_take)
  ultimately have "list_all (\<lambda>i. i < length T) (take t2 io)"
    by (auto simp: list_all_iff)
  then show ?thesis by (simp add: take_idx_def)
qed

lemma simes_statistics_sorted:
  assumes "simes_statistics argsort cdf Xm yv randomizer draw = Inr (T, pv, io, sp)"
  shows "sorted pv"
  using assms
  by (auto simp: simes_statistics_def Let_def bindE_eq_Inr split: if_splits)

lemma simes_decide_Some_facts:
  assumes "simes_decide p T pv io sp alpha = Inr (Some (i0, J, t, sg, Tinf))"
  shows "\<exists>significant Ta passes t_0.
           sp \<le> alpha / 2
         \<and> simes_significant io pv alpha = Inr significant
         \<and> item significant 0 = Inr i0
         \<and> item T i0 = Inr Ta
         \<and> np_bin (\<le>) pv (map (\<lambda>i. ((real i + 1) / (2 * real p)) * alpha) [0..<p]) = Inr passes
         \<and> mask_get [0..<p] passes = Inr t_0
         \<and> item t_0 0 = Inr t
         \<and> sg = sgn Ta
         \<and> (t > 0 \<longrightarrow> (\<exists>v. take_idx T (take t io) = Inr v))"
  using assms
  by (clarsimp simp: simes_decide_def Let_def bindE_eq_Inr split: if_splits) blast+

lemma simes_decide_keeps_active:
  assumes srt: "sorted pv" and al: "alpha1 \<le> alpha2"
    and r1: "simes_decide p T pv io sp alpha1 = Inr (Some (i0, J, t, sg, Tinf))"
  shows "\<exists>J' t' Tinf'. simes_decide p T pv io sp alpha2 = Inr (Some (i0, J', t', sg, Tinf'))"
proof -
  from simes_decide_Some_facts [OF r1] obtain significant Ta passes t_0 where
    sp1: "sp \<le> alpha1 / 2"
    and sig1: "simes_significant io pv alpha1 = Inr significant"
    and i0: "item significant 0 = Inr i0"
    and ta: "item T i0 = Inr Ta"
    and pa1: "np_bin (\<le>) pv (map (\<lambda>i. ((real i + 1) / (2 * real p)) * alpha1) [0..<p]) = Inr passes"
    and t01: "mask_get [0..<p] passes = Inr t_0"
    and tf1: "item t_0 0 = Inr t"
    and sg: "sg = sgn Ta"
    and tk: "t > 0 \<longrightarrow> (\<exists>v. take_idx T (take t io) = Inr v)"
    by blast
  have sp2: "sp \<le> alpha2 / 2" using sp1 al by simp
  \<comment> \<open>the significant array\<close>
  from sig1 have len: "length io = length pv"
    and s1: "significant = map fst (filter snd (zip io (map (\<lambda>q. q \<le> alpha1 / 2) pv)))"
    by (simp_all add: simes_significant_def mask_get_Inr)
  from i0 have ne1: "significant \<noteq> []" and h1: "i0 = hd significant"
    by (simp_all add: item_0_Inr)
  from masked_sorted_head [OF srt len ne1 [unfolded s1]]
  have hd1: "hd significant = hd io" and pvne: "pv \<noteq> []" and q1: "hd pv \<le> alpha1 / 2"
    by (simp_all add: s1)
  define significant2 where
    "significant2 = map fst (filter snd (zip io (map (\<lambda>q. q \<le> alpha2 / 2) pv)))"
  have sig2: "simes_significant io pv alpha2 = Inr significant2"
    using len by (simp add: simes_significant_def mask_get_def significant2_def)
  have ne2: "significant2 \<noteq> []"
  proof -
    from pvne len obtain q qs i is' where "pv = q # qs" "io = i # is'"
      by (cases pv; cases io) auto
    moreover have "hd pv \<le> alpha2 / 2" using q1 al by simp
    ultimately show ?thesis by (simp add: significant2_def)
  qed
  from masked_sorted_head [OF srt len ne2 [unfolded significant2_def]]
  have hd2: "hd significant2 = hd io" by (simp add: significant2_def)
  have i02: "item significant2 0 = Inr i0"
    using ne2 hd2 hd1 h1 by (simp add: item_0_Inr)
  \<comment> \<open>the first rank below its bound\<close>
  have "\<exists>m2. np_bin (\<le>) pv (map (\<lambda>i. ((real i + 1) / (2 * real p)) * alpha2) [0..<p]) = Inr m2
          \<and> length m2 = length passes \<and> (\<forall>i<length passes. passes ! i \<longrightarrow> m2 ! i)"
  proof (rule np_bin_le_mono [OF pa1])
    show "length (map (\<lambda>i. ((real i + 1) / (2 * real p)) * alpha1) [0..<p])
            = length (map (\<lambda>i. ((real i + 1) / (2 * real p)) * alpha2) [0..<p])" by simp
  next
    fix i
    assume "i < length (map (\<lambda>i. ((real i + 1) / (2 * real p)) * alpha1) [0..<p])"
    then have i: "i < p" by simp
    have "((real i + 1) / (2 * real p)) * alpha1 \<le> ((real i + 1) / (2 * real p)) * alpha2"
      using al by (intro mult_left_mono) simp_all
    then show "map (\<lambda>i. ((real i + 1) / (2 * real p)) * alpha1) [0..<p] ! i
                 \<le> map (\<lambda>i. ((real i + 1) / (2 * real p)) * alpha2) [0..<p] ! i"
      using i by simp
  qed
  then obtain passes2 where
    pa2: "np_bin (\<le>) pv (map (\<lambda>i. ((real i + 1) / (2 * real p)) * alpha2) [0..<p]) = Inr passes2"
    and lp2: "length passes2 = length passes"
    and imp: "\<forall>i<length passes. passes ! i \<longrightarrow> passes2 ! i" by blast
  from t01 have lp: "length passes = p"
    and t0_eq: "t_0 = filter (\<lambda>i. passes ! i) [0..<p]"
    by (simp_all add: mask_get_Inr masked_upt)
  from tf1 have ne_t: "filter (\<lambda>i. passes ! i) [0..<p] \<noteq> []"
    and t_eq: "t = hd (filter (\<lambda>i. passes ! i) [0..<p])"
    by (simp_all add: item_0_Inr t0_eq)
  note ft = first_true_props [OF ne_t, folded t_eq]
  define t_02 where "t_02 = filter (\<lambda>i. passes2 ! i) [0..<p]"
  have t02: "mask_get [0..<p] passes2 = Inr t_02"
    using lp lp2 by (simp add: mask_get_def masked_upt t_02_def)
  have p2t: "passes2 ! t" using ft(1) ft(2) imp lp by simp
  then have ne_t2: "filter (\<lambda>i. passes2 ! i) [0..<p] \<noteq> []"
    using ft(2) by (auto simp: filter_empty_conv)
  define t' where "t' = hd t_02"
  have tf2: "item t_02 0 = Inr t'" using ne_t2 by (simp add: item_0_Inr t_02_def t'_def)
  have t'le: "t' \<le> t"
    unfolding t'_def t_02_def using ft(2) p2t by (intro first_true_props(3) [OF ne_t2])
  show ?thesis
  proof (cases "t' > 0")
    case True
    then have "t > 0" using t'le by simp
    with tk obtain v where "take_idx T (take t io) = Inr v" by blast
    from take_idx_prefix [OF this t'le] obtain w where w: "take_idx T (take t' io) = Inr w" ..
    have "simes_decide p T pv io sp alpha2
            = Inr (Some (i0, map int (take t' io), t', sg, w @ [Ta]))"
      unfolding simes_decide_def Let_def sig2 i02 ta pa2 t02 tf2 bindE_simps
      using sp2 True by (simp add: w sg bindE_simps)
    then show ?thesis by blast
  next
    case False
    have "simes_decide p T pv io sp alpha2 = Inr (Some (i0, [- 1], t', sg, [Ta]))"
      unfolding simes_decide_def Let_def sig2 i02 ta pa2 t02 tf2 bindE_simps
      using sp2 False by (simp add: sg)
    then show ?thesis by blast
  qed
qed

lemma simes_significant_mono:
  assumes "alpha1 \<le> alpha2" "simes_significant io pv alpha1 = Inr s1"
    "simes_significant io pv alpha2 = Inr s2"
  shows "set s1 \<subseteq> set s2"
proof
  fix x
  assume "x \<in> set s1"
  then obtain b where "(x, b) \<in> set (zip io (map (\<lambda>q. q \<le> alpha1 / 2) pv))" "b"
    using assms(2) by (auto simp: simes_significant_def mask_get_Inr)
  then obtain k where k: "k < length io" "k < length pv" "io ! k = x" "pv ! k \<le> alpha1 / 2"
    by (auto simp: set_zip)
  then have "pv ! k \<le> alpha2 / 2" using assms(1) by simp
  with k have "(x, True) \<in> set (zip io (map (\<lambda>q. q \<le> alpha2 / 2) pv))"
    by (force simp: set_zip)
  then show "x \<in> set s2"
    using assms(3) by (force simp: simes_significant_def mask_get_Inr)
qed

text \<open>
  Claim C6. For fixed data, randomizer and randomization draw, the active index that
  \<open>simes_selection\<close> returns is monotone in \<open>alpha\<close>: for \<open>alpha1 \<le> alpha2\<close> the index
  reported at \<open>alpha1\<close> (none when the call returns \<open>None\<close>) is reported at \<open>alpha2\<close> too, and
  a call that returns \<open>None\<close> at \<open>alpha2\<close> returns \<open>None\<close> at \<open>alpha1\<close>. The array
  \<open>significant\<close> of the indices with a p-value at most \<open>alpha / 2\<close>, whose first entry is
  the reported index, grows with \<open>alpha\<close> as well.
\<close>

theorem simes_selection_monotone_in_alpha:
  assumes al: "alpha1 \<le> alpha2"
  shows "simes_active_set (simes_selection argsort cdf Xm yv alpha1 randomizer draw)
           \<subseteq> simes_active_set (simes_selection argsort cdf Xm yv alpha2 randomizer draw)
       \<and> (simes_selection argsort cdf Xm yv alpha2 randomizer draw = Inr None
            \<longrightarrow> simes_selection argsort cdf Xm yv alpha1 randomizer draw = Inr None)
       \<and> (\<forall>io pv s1 s2. simes_significant io pv alpha1 = Inr s1
              \<and> simes_significant io pv alpha2 = Inr s2 \<longrightarrow> set s1 \<subseteq> set s2)"
proof (intro conjI)
  show "\<forall>io pv s1 s2. simes_significant io pv alpha1 = Inr s1
              \<and> simes_significant io pv alpha2 = Inr s2 \<longrightarrow> set s1 \<subseteq> set s2"
    using simes_significant_mono [OF al] by blast
next
  show "simes_selection argsort cdf Xm yv alpha2 randomizer draw = Inr None
            \<longrightarrow> simes_selection argsort cdf Xm yv alpha1 randomizer draw = Inr None"
  proof (cases "simes_statistics argsort cdf Xm yv randomizer draw")
    case (Inl e)
    then show ?thesis by (simp add: simes_selection_def bindE_simps)
  next
    case (Inr st)
    obtain T pv io sp where st: "st = (T, pv, io, sp)" by (cases st) auto
    show ?thesis
      unfolding simes_selection_def Inr st bindE_simps prod.case simes_decide_None_iff
      using al by simp
  qed
next
  show "simes_active_set (simes_selection argsort cdf Xm yv alpha1 randomizer draw)
           \<subseteq> simes_active_set (simes_selection argsort cdf Xm yv alpha2 randomizer draw)"
  proof (cases "simes_statistics argsort cdf Xm yv randomizer draw")
    case (Inl e)
    then show ?thesis by (simp add: simes_selection_def bindE_simps simes_active_set_def)
  next
    case (Inr st)
    obtain T pv io sp where st: "st = (T, pv, io, sp)" by (cases st) auto
    have srt: "sorted pv" using Inr st simes_statistics_sorted by blast
    have sel: "simes_selection argsort cdf Xm yv a randomizer draw
                 = simes_decide (ncols Xm) T pv io sp a" for a
      by (simp add: simes_selection_def Inr st bindE_simps)
    show ?thesis
    proof
      fix x
      assume "x \<in> simes_active_set (simes_selection argsort cdf Xm yv alpha1 randomizer draw)"
      then obtain J t sg Tinf where
        "simes_decide (ncols Xm) T pv io sp alpha1 = Inr (Some (x, J, t, sg, Tinf))"
        unfolding sel simes_active_set_def
        by (auto split: sum.splits option.splits)
      from simes_decide_keeps_active [OF srt al this]
      show "x \<in> simes_active_set (simes_selection argsort cdf Xm yv alpha2 randomizer draw)"
        unfolding sel simes_active_set_def by auto
    qed
  qed
qed

lemmas simes_eval = simes_selection_def simes_statistics_def simes_decide_def
  simes_significant_def simes_active_set_def np_min_def example_cdf_def

lemma example_simes_low:
  "simes_selection stable_argsort example_cdf (Mat 2 2 [[1, 0], [0, 1]]) [3, 0] (1 / 20)
     ''gaussian'' [0, 0] = Inr None"
  by (simp add: simes_eval stable_argsort_def np_eval)

lemma example_simes_high:
  "simes_selection stable_argsort example_cdf (Mat 2 2 [[1, 0], [0, 1]]) [3, 0] (1 / 10)
     ''gaussian'' [0, 0] = Inr (Some (0, [- 1], 0, 1, [3]))"
  by (simp add: simes_eval stable_argsort_def np_eval)

theorem simes_selection_monotone_in_alpha_witness:
  "(1 / 20 :: real) \<le> 1 / 10
   \<and> simes_selection stable_argsort example_cdf (Mat 2 2 [[1, 0], [0, 1]]) [3, 0] (1 / 20)
        ''gaussian'' [0, 0] = Inr None
   \<and> simes_selection stable_argsort example_cdf (Mat 2 2 [[1, 0], [0, 1]]) [3, 0] (1 / 10)
        ''gaussian'' [0, 0] = Inr (Some (0, [- 1], 0, 1, [3]))
   \<and> simes_active_set (simes_selection stable_argsort example_cdf (Mat 2 2 [[1, 0], [0, 1]])
        [3, 0] (1 / 20) ''gaussian'' [0, 0])
       \<subseteq> simes_active_set (simes_selection stable_argsort example_cdf (Mat 2 2 [[1, 0], [0, 1]])
        [3, 0] (1 / 10) ''gaussian'' [0, 0])"
proof -
  have h: "(1 / 20 :: real) \<le> 1 / 10" by simp
  from simes_selection_monotone_in_alpha
    [OF h, of stable_argsort example_cdf "Mat 2 2 [[1, 0], [0, 1]]" "[3, 0]" "''gaussian''" "[0, 0]"]
    h example_simes_low example_simes_high
  show ?thesis by blast
qed

end
